theory Spec2Isabelle
  imports Complex_Main "HOL-Library.AList" "HOL-Library.Char_ord" "HOL-Library.List_Lexorder"
begin

section \<open>Python values, types and errors\<close>

text \<open>
  The feature editor of \<^verbatim>\<open>mimicus/featureedit_p3.py\<close> handles four kinds of Python values:
  integers, booleans, floats and exception objects (a getter that raised leaves its
  exception in the feature dictionary, and a request may carry one). A finite float is a
  rational number, and Python compares numbers of different types exactly, so a float is
  modelled by the rational it denotes. Raised exceptions are the left summand of a result.
\<close>

datatype pyerror = KeyError string | TypeError | ValueError | ReaderError string

datatype pyval = IntV int | BoolV bool | FloatV rat | ExcV pyerror

datatype pytype = TInt | TBool | TFloat | TExc

fun type_of :: "pyval \<Rightarrow> pytype" where
  "type_of (IntV _) = TInt"
| "type_of (BoolV _) = TBool"
| "type_of (FloatV _) = TFloat"
| "type_of (ExcV _) = TExc"

text \<open>The number a value denotes (\<open>True\<close> is 1, \<open>False\<close> is 0); an exception denotes none.\<close>

fun num :: "pyval \<Rightarrow> rat option" where
  "num (IntV i) = Some (of_int i)"
| "num (BoolV b) = Some (if b then 1 else 0)"
| "num (FloatV r) = Some r"
| "num (ExcV _) = None"

text \<open>\<open>a != b\<close>: numbers compare by value, an exception object equals no number.\<close>

definition py_ne :: "pyval \<Rightarrow> pyval \<Rightarrow> bool" where
  "py_ne a b = (case (num a, num b) of (Some x, Some y) \<Rightarrow> x \<noteq> y | _ \<Rightarrow> True)"

text \<open>\<open>a > b\<close> and \<open>a < b\<close>: ordering an exception object raises \<open>TypeError\<close>.\<close>

definition py_gt :: "pyval \<Rightarrow> pyval \<Rightarrow> pyerror + bool" where
  "py_gt a b = (case (num a, num b) of (Some x, Some y) \<Rightarrow> Inr (x > y) | _ \<Rightarrow> Inl TypeError)"

definition py_lt :: "pyval \<Rightarrow> pyval \<Rightarrow> pyerror + bool" where
  "py_lt a b = (case (num a, num b) of (Some x, Some y) \<Rightarrow> Inr (x < y) | _ \<Rightarrow> Inl TypeError)"

text \<open>
  Where the code uses a value as an integer (\<open>str * n\<close>, \<open>n - m\<close> followed by \<open>str * _\<close>,
  \<open>time.gmtime(n)\<close>): a boolean is the integer 0 or 1; a float or an exception object
  ends in \<open>TypeError\<close> at the string repetition.
\<close>

fun int_of :: "pyval \<Rightarrow> pyerror + int" where
  "int_of (IntV i) = Inr i"
| "int_of (BoolV b) = Inr (if b then 1 else 0)"
| "int_of (FloatV _) = Inl TypeError"
| "int_of (ExcV _) = Inl TypeError"

section \<open>Text and bytes\<close>

text \<open>
  The working buffer is a list of bytes. Python text is a list of code points below 256,
  which covers every string the editor builds (all of them ASCII). \<open>str.encode()\<close> is
  UTF-8: a code point below 128 is one byte, one from 128 to 255 is two bytes.
\<close>

definition encode_char :: "char \<Rightarrow> string" where
  "encode_char c =
     (if (of_char c :: nat) < 128 then [c]
      else [char_of (192 + (of_char c :: nat) div 64), char_of (128 + (of_char c :: nat) mod 64)])"

definition encode :: "string \<Rightarrow> string" where
  "encode s = concat (map encode_char s)"

text \<open>\<open>s * n\<close> on text: \<open>n\<close> copies, none when \<open>n\<close> is zero or negative.\<close>

definition str_mul :: "string \<Rightarrow> int \<Rightarrow> string" where
  "str_mul s n = concat (replicate (nat n) s)"

section \<open>The byte patcher\<close>

text \<open>
  The memory map and the editor's single insertion offset. \<open>insert_offset\<close> is a byte
  offset printed by the reader (a match position or the file size), never negative.
\<close>

record patcher =
  mm :: string
  insert_offset :: nat

text \<open>\<open>mmap.resize(n)\<close>: the file grows by zero bytes (or is cut).\<close>

definition mmap_resize :: "string \<Rightarrow> nat \<Rightarrow> string" where
  "mmap_resize b n = take n b @ replicate (n - length b) (CHR 0x00)"

text \<open>
  \<open>mmap.move(dest, src, count)\<close>: copies \<open>count\<close> bytes as \<open>memmove\<close> does; a negative
  count or a range that leaves the map raises \<open>ValueError\<close>.
\<close>

definition mmap_move :: "string \<Rightarrow> nat \<Rightarrow> nat \<Rightarrow> int \<Rightarrow> pyerror + string" where
  "mmap_move b dest src cnt =
     (if cnt < 0 \<or> int src > int (length b) - cnt \<or> int dest > int (length b) - cnt
      then Inl ValueError
      else Inr (take dest b @ take (nat cnt) (drop src b) @ drop (dest + nat cnt) b))"

text \<open>\<open>mmap.seek(pos)\<close> then \<open>mmap.write(d)\<close> with bytes \<open>d\<close>.\<close>

definition mmap_seek_write :: "string \<Rightarrow> nat \<Rightarrow> string \<Rightarrow> pyerror + string" where
  "mmap_seek_write b pos d =
     (if pos > length b then Inl ValueError
      else if length b - pos < length d then Inl ValueError
      else Inr (take pos b @ d @ drop (pos + length d) b))"

text \<open>\<open>FeatureEdit._insert_into_mmap(mmap, data)\<close>\<close>

definition insert_into_mmap :: "string \<Rightarrow> 'a patcher_scheme \<Rightarrow> pyerror + 'a patcher_scheme" where
  "insert_into_mmap data0 st =
     (let file_trailer = int (length (mm st)) - int (insert_offset st);
          data = encode data0;
          resized = mmap_resize (mm st) (length (mm st) + length data)
      in case mmap_move resized (insert_offset st + length data) (insert_offset st) file_trailer of
           Inl e \<Rightarrow> Inl e
         | Inr moved \<Rightarrow>
             (case mmap_seek_write moved (insert_offset st) data of
                Inl e \<Rightarrow> Inl e
              | Inr written \<Rightarrow>
                  Inr (st\<lparr>mm := written, insert_offset := insert_offset st + length data\<rparr>)))"

text \<open>Insertions made one after the other, each seeing the offset the previous one left.\<close>

fun insert_seq :: "string list \<Rightarrow> 'a patcher_scheme \<Rightarrow> pyerror + 'a patcher_scheme" where
  "insert_seq [] st = Inr st"
| "insert_seq (d # ds) st =
     (case insert_into_mmap d st of Inl e \<Rightarrow> Inl e | Inr st' \<Rightarrow> insert_seq ds st')"

section \<open>The feature catalog\<close>

text \<open>
  A bound of a feature's range is a literal, or the marker class \<open>FileDefined\<close>: the
  bound is the value the file has now. \<open>edit\<close> is \<open>'y'\<close> (altering is implemented),
  \<open>'n'\<close> (impossible) or \<open>'m'\<close> (changes only through other features).
\<close>

datatype bound = FileDefined | Lit pyval

record feat_desc =
  ftype :: pytype
  range_lo :: bound
  range_hi :: bound
  edit :: string

definition desc :: "pytype \<Rightarrow> bound \<Rightarrow> bound \<Rightarrow> string \<Rightarrow> feat_desc" where
  "desc t lo hi e = \<lparr>ftype = t, range_lo = lo, range_hi = hi, edit = e\<rparr>"

text \<open>
  \<open>_pdfrate_feature_descriptions\<close>, entry by entry. The float literal \<open>0.1\<close> is the
  double it denotes. The range of \<open>pos_acroform_min\<close> is written \<open>(0.0, 1,0)\<close> in the
  source, a triple whose second component is the integer 1.
\<close>

definition pdfrate_feature_descriptions :: "(string \<times> feat_desc) list" where
  "pdfrate_feature_descriptions =
     [(''author_dot'', desc TInt (Lit (IntV 0)) (Lit (IntV 24)) ''y''),
      (''author_lc'', desc TInt (Lit (IntV 0)) (Lit (IntV 158)) ''y''),
      (''author_len'', desc TInt (Lit (IntV 0)) (Lit (IntV 288)) ''m''),
      (''author_mismatch'', desc TInt (FileDefined) (Lit (IntV 45)) ''m''),
      (''author_num'', desc TInt (Lit (IntV 0)) (Lit (IntV 63)) ''y''),
      (''author_oth'', desc TInt (Lit (IntV 0)) (Lit (IntV 79)) ''y''),
      (''author_uc'', desc TInt (Lit (IntV 0)) (Lit (IntV 108)) ''y''),
      (''box_nonother_types'', desc TInt (FileDefined) (Lit (IntV 2684)) ''y''),
      (''box_other_only'', desc TBool (Lit (BoolV False)) (Lit (BoolV True)) ''m''),
      (''company_mismatch'', desc TInt (FileDefined) (Lit (IntV 2)) ''m''),
      (''count_acroform'', desc TInt (FileDefined) (Lit (IntV 7)) ''y''),
      (''count_acroform_obs'', desc TInt (FileDefined) (Lit (IntV 1)) ''y''),
      (''count_action'', desc TInt (FileDefined) (Lit (IntV 815)) ''y''),
      (''count_action_obs'', desc TInt (FileDefined) (Lit (IntV 1)) ''y''),
      (''count_box_a4'', desc TInt (FileDefined) (Lit (IntV 34)) ''y''),
      (''count_box_legal'', desc TInt (FileDefined) (Lit (IntV 268)) ''y''),
      (''count_box_letter'', desc TInt (FileDefined) (Lit (IntV 2684)) ''y''),
      (''count_box_other'', desc TInt (FileDefined) (Lit (IntV 12916)) ''y''),
      (''count_box_overlap'', desc TInt (FileDefined) (Lit (IntV 10)) ''y''),
      (''count_endobj'', desc TInt (FileDefined) (Lit (IntV 19632)) ''y''),
      (''count_endstream'', desc TInt (FileDefined) (Lit (IntV 6668)) ''y''),
      (''count_eof'', desc TInt (FileDefined) (Lit (IntV 24)) ''y''),
      (''count_font'', desc TInt (FileDefined) (Lit (IntV 7333)) ''y''),
      (''count_font_obs'', desc TInt (FileDefined) (Lit (IntV 5)) ''y''),
      (''count_image_large'', desc TInt (FileDefined) (Lit (IntV 35)) ''y''),
      (''count_image_med'', desc TInt (FileDefined) (Lit (IntV 278)) ''y''),
      (''count_image_small'', desc TInt (FileDefined) (Lit (IntV 311)) ''y''),
      (''count_image_total'', desc TInt (FileDefined) (Lit (IntV 4542)) ''n''),
      (''count_image_xlarge'', desc TInt (FileDefined) (Lit (IntV 3)) ''y''),
      (''count_image_xsmall'', desc TInt (FileDefined) (Lit (IntV 4525)) ''y''),
      (''count_javascript'', desc TInt (FileDefined) (Lit (IntV 404)) ''y''),
      (''count_javascript_obs'', desc TInt (FileDefined) (Lit (IntV 2)) ''y''),
      (''count_js'', desc TInt (FileDefined) (Lit (IntV 404)) ''y''),
      (''count_js_obs'', desc TInt (FileDefined) (Lit (IntV 2)) ''y''),
      (''count_obj'', desc TInt (FileDefined) (Lit (IntV 19632)) ''y''),
      (''count_objstm'', desc TInt (FileDefined) (Lit (IntV 1036)) ''y''),
      (''count_objstm_obs'', desc TInt (FileDefined) (Lit (IntV 1)) ''y''),
      (''count_page'', desc TInt (FileDefined) (Lit (IntV 1341)) ''y''),
      (''count_page_obs'', desc TInt (FileDefined) (Lit (IntV 6)) ''y''),
      (''count_startxref'', desc TInt (FileDefined) (Lit (IntV 24)) ''y''),
      (''count_stream'', desc TInt (FileDefined) (Lit (IntV 6668)) ''y''),
      (''count_stream_diff'', desc TInt (Lit (IntV (-2))) (Lit (IntV 69)) ''m''),
      (''count_trailer'', desc TInt (FileDefined) (Lit (IntV 46)) ''y''),
      (''count_xref'', desc TInt (FileDefined) (Lit (IntV 46)) ''y''),
      (''createdate_dot'', desc TInt (Lit (IntV 0)) (Lit (IntV 1)) ''n''),
      (''createdate_mismatch'', desc TInt (FileDefined) (Lit (IntV 92)) ''m''),
      (''createdate_ts'', desc TInt (Lit (IntV 0)) (Lit (IntV 2058951292)) ''y''),
      (''createdate_tz'', desc TInt (Lit (IntV (-36000))) (Lit (IntV 46800)) ''y''),
      (''createdate_version_ratio'', desc TFloat (Lit (FloatV (-1))) (Lit (FloatV 7326)) ''m''),
      (''creator_dot'', desc TInt (Lit (IntV 0)) (Lit (IntV 5)) ''y''),
      (''creator_lc'', desc TInt (Lit (IntV 0)) (Lit (IntV 46)) ''y''),
      (''creator_len'', desc TInt (Lit (IntV 0)) (Lit (IntV 166)) ''m''),
      (''creator_mismatch'', desc TInt (FileDefined) (Lit (IntV 45)) ''m''),
      (''creator_num'', desc TInt (Lit (IntV 0)) (Lit (IntV 105)) ''y''),
      (''creator_oth'', desc TInt (Lit (IntV 0)) (Lit (IntV 64)) ''y''),
      (''creator_uc'', desc TInt (Lit (IntV 0)) (Lit (IntV 31)) ''y''),
      (''delta_ts'', desc TInt (Lit (IntV (-1279940312))) (Lit (IntV 1294753248)) ''n''),
      (''delta_tz'', desc TInt (Lit (IntV (-57600))) (Lit (IntV 46800)) ''n''),
      (''image_mismatch'', desc TInt (FileDefined) (Lit (IntV 207)) ''m''),
      (''image_totalpx'', desc TInt (FileDefined) (Lit (IntV 119549960)) ''m''),
      (''keywords_dot'', desc TInt (Lit (IntV 0)) (Lit (IntV 5)) ''y''),
      (''keywords_lc'', desc TInt (Lit (IntV 0)) (Lit (IntV 291)) ''y''),
      (''keywords_len'', desc TInt (Lit (IntV 0)) (Lit (IntV 446)) ''m''),
      (''keywords_mismatch'', desc TInt (FileDefined) (Lit (IntV 19)) ''m''),
      (''keywords_num'', desc TInt (Lit (IntV 0)) (Lit (IntV 102)) ''y''),
      (''keywords_oth'', desc TInt (Lit (IntV 0)) (Lit (IntV 185)) ''y''),
      (''keywords_uc'', desc TInt (Lit (IntV 0)) (Lit (IntV 164)) ''y''),
      (''len_obj_avg'', desc TFloat (Lit (FloatV (3602879701896397 / 36028797018963968))) (Lit (FloatV 382922)) ''m''),
      (''len_obj_max'', desc TInt (FileDefined) (Lit (IntV 4161352)) ''m''),
      (''len_obj_min'', desc TInt (Lit (IntV 6)) (FileDefined) ''m''),
      (''len_stream_avg'', desc TFloat (Lit (FloatV 0)) (Lit (FloatV 1531433)) ''m''),
      (''len_stream_max'', desc TInt (FileDefined) (Lit (IntV 4610074)) ''m''),
      (''len_stream_min'', desc TInt (Lit (IntV 0)) (FileDefined) ''m''),
      (''moddate_dot'', desc TInt (Lit (IntV 0)) (Lit (IntV 1)) ''n''),
      (''moddate_mismatch'', desc TInt (FileDefined) (Lit (IntV 23)) ''m''),
      (''moddate_ts'', desc TInt (Lit (IntV 0)) (Lit (IntV 2058951292)) ''y''),
      (''moddate_tz'', desc TInt (Lit (IntV (-36000))) (Lit (IntV 46800)) ''y''),
      (''moddate_version_ratio'', desc TFloat (Lit (FloatV (3602879701896397 / 36028797018963968))) (Lit (FloatV 7390)) ''m''),
      (''pdfid0_dot'', desc TInt (Lit (IntV 0)) (Lit (IntV 1)) ''m''),
      (''pdfid0_lc'', desc TInt (Lit (IntV 0)) (Lit (IntV 21)) ''m''),
      (''pdfid0_len'', desc TInt (Lit (IntV 0)) (Lit (IntV 46)) ''m''),
      (''pdfid0_mismatch'', desc TInt (FileDefined) (Lit (IntV 3)) ''m''),
      (''pdfid0_num'', desc TInt (Lit (IntV 0)) (Lit (IntV 44)) ''m''),
      (''pdfid0_oth'', desc TInt (Lit (IntV 0)) (Lit (IntV 1)) ''m''),
      (''pdfid0_uc'', desc TInt (Lit (IntV 0)) (Lit (IntV 21)) ''m''),
      (''pdfid1_dot'', desc TInt (Lit (IntV 0)) (Lit (IntV 1)) ''m''),
      (''pdfid1_lc'', desc TInt (Lit (IntV 0)) (Lit (IntV 21)) ''m''),
      (''pdfid1_len'', desc TInt (Lit (IntV 0)) (Lit (IntV 32)) ''m''),
      (''pdfid1_mismatch'', desc TInt (FileDefined) (Lit (IntV 23)) ''m''),
      (''pdfid1_num'', desc TInt (Lit (IntV 0)) (Lit (IntV 32)) ''m''),
      (''pdfid1_oth'', desc TInt (Lit (IntV 0)) (Lit (IntV 1)) ''m''),
      (''pdfid1_uc'', desc TInt (Lit (IntV 0)) (Lit (IntV 22)) ''m''),
      (''pdfid_mismatch'', desc TBool (Lit (BoolV False)) (Lit (BoolV True)) ''m''),
      (''pos_acroform_avg'', desc TFloat (FileDefined) (Lit (FloatV 1)) ''m''),
      (''pos_acroform_max'', desc TFloat (FileDefined) (Lit (FloatV 1)) ''m''),
      (''pos_acroform_min'', desc TFloat (Lit (FloatV 0)) (Lit (IntV 1)) ''m''),
      (''pos_box_avg'', desc TFloat (FileDefined) (Lit (FloatV 1)) ''m''),
      (''pos_box_max'', desc TFloat (FileDefined) (Lit (FloatV 1)) ''m''),
      (''pos_box_min'', desc TFloat (Lit (FloatV 0)) (Lit (FloatV 1)) ''n''),
      (''pos_eof_avg'', desc TFloat (FileDefined) (Lit (FloatV 1)) ''m''),
      (''pos_eof_max'', desc TFloat (FileDefined) (Lit (FloatV 1)) ''n''),
      (''pos_eof_min'', desc TFloat (Lit (FloatV 0)) (FileDefined) ''m''),
      (''pos_image_avg'', desc TFloat (FileDefined) (Lit (FloatV 1)) ''m''),
      (''pos_image_max'', desc TFloat (FileDefined) (Lit (FloatV 1)) ''m''),
      (''pos_image_min'', desc TFloat (Lit (FloatV 0)) (Lit (FloatV 1)) ''m''),
      (''pos_page_avg'', desc TFloat (FileDefined) (Lit (FloatV 1)) ''m''),
      (''pos_page_max'', desc TFloat (FileDefined) (Lit (FloatV 1)) ''m''),
      (''pos_page_min'', desc TFloat (Lit (FloatV 0)) (Lit (FloatV 1)) ''m''),
      (''producer_dot'', desc TInt (Lit (IntV 0)) (Lit (IntV 1962)) ''y''),
      (''producer_lc'', desc TInt (Lit (IntV 0)) (Lit (IntV 7343)) ''y''),
      (''producer_len'', desc TInt (Lit (IntV 0)) (Lit (IntV 32566)) ''m''),
      (''producer_mismatch'', desc TInt (FileDefined) (Lit (IntV 9)) ''m''),
      (''producer_num'', desc TInt (Lit (IntV 0)) (Lit (IntV 25302)) ''y''),
      (''producer_oth'', desc TInt (Lit (IntV 0)) (Lit (IntV 9233)) ''y''),
      (''producer_uc'', desc TInt (Lit (IntV 0)) (Lit (IntV 13)) ''y''),
      (''ratio_imagepx_size'', desc TFloat (Lit (FloatV 0)) (Lit (FloatV 559)) ''m''),
      (''ratio_size_obj'', desc TFloat (Lit (FloatV 24)) (Lit (FloatV 382971)) ''m''),
      (''ratio_size_page'', desc TFloat (Lit (FloatV 266)) (Lit (FloatV 11500000000000)) ''m''),
      (''ratio_size_stream'', desc TFloat (Lit (FloatV 316)) (Lit (FloatV 39680000000)) ''m''),
      (''size'', desc TInt (FileDefined) (Lit (IntV 10000000)) ''y''),
      (''subject_dot'', desc TInt (Lit (IntV 0)) (Lit (IntV 5)) ''y''),
      (''subject_lc'', desc TInt (Lit (IntV 0)) (Lit (IntV 256)) ''y''),
      (''subject_len'', desc TInt (Lit (IntV 0)) (Lit (IntV 413)) ''m''),
      (''subject_mismatch'', desc TInt (FileDefined) (Lit (IntV 15)) ''m''),
      (''subject_num'', desc TInt (Lit (IntV 0)) (Lit (IntV 113)) ''y''),
      (''subject_oth'', desc TInt (Lit (IntV 0)) (Lit (IntV 82)) ''y''),
      (''subject_uc'', desc TInt (Lit (IntV 0)) (Lit (IntV 94)) ''y''),
      (''title_dot'', desc TInt (Lit (IntV 0)) (Lit (IntV 11)) ''y''),
      (''title_lc'', desc TInt (Lit (IntV 0)) (Lit (IntV 183)) ''y''),
      (''title_len'', desc TInt (Lit (IntV 0)) (Lit (IntV 698)) ''m''),
      (''title_mismatch'', desc TInt (FileDefined) (Lit (IntV 517)) ''m''),
      (''title_num'', desc TInt (Lit (IntV 0)) (Lit (IntV 420)) ''y''),
      (''title_oth'', desc TInt (Lit (IntV 0)) (Lit (IntV 160)) ''y''),
      (''title_uc'', desc TInt (Lit (IntV 0)) (Lit (IntV 74)) ''y''),
      (''version'', desc TInt (Lit (IntV 1)) (Lit (IntV 8)) ''y'')]"

text \<open>\<open>_incrementable_feats\<close>: the marker text of each feature that insertions can raise.\<close>

definition incrementable_feats :: "(string \<times> string) list" where
  "incrementable_feats =
     [(''count_acroform'', ''/AcroForm''),
      (''count_acroform_obs'', ''/Acro#46orm''),
      (''count_action'', ''/AA''),
      (''count_action_obs'', ''/Open#41ction''),
      (''count_box_a4'', ''[0 0 597 842]''),
      (''count_box_legal'', ''[0 0 611 1007]''),
      (''count_box_letter'', ''[0 0 611 791]''),
      (''count_box_other'', ''[33 34 35 36]''),
      (''count_box_overlap'', ''[0 0 597 791]''),
      (''count_endobj'', ''endobj''),
      (''count_endstream'', ''endstream''),
      (''count_eof'', ''%EOF''),
      (''count_font'', ''/Font''),
      (''count_font_obs'', ''/F#6fnt''),
      (''count_image_large'', ''<< /Height 888/Width 888>>''),
      (''count_image_med'', ''<< /Height 255/Width 255>>''),
      (''count_image_small'', ''<< /Height 65/Width 65>>''),
      (''count_image_xlarge'', ''<< /Height 8888/Width 8888>>''),
      (''count_image_xsmall'', ''<< /Height 1/Width 1>>''),
      (''count_javascript'', ''/JavaScript''),
      (''count_javascript_obs'', ''/Jav#61Script''),
      (''count_js'', ''/JS''),
      (''count_js_obs'', ''/#4AS''),
      (''count_obj'', ''22 0 obj''),
      (''count_objstm'', ''/ObjStm''),
      (''count_objstm_obs'', ''/Ob#6aStm''),
      (''count_page'', ''/Page''),
      (''count_page_obs'', ''/#50age''),
      (''count_startxref'', ''startxref''),
      (''count_stream'', ''stream''),
      (''count_trailer'', ''trailer''),
      (''count_xref'', ''xref'')]"

text \<open>\<open>_metadata_feats\<close>: the template of each metadata field, \<open>{}\<close> standing for the text.\<close>

definition metadata_feats :: "(string \<times> string) list" where
  "metadata_feats =
     [(''author'', '' /Author({})'' @ [CHR 0x0A]),
      (''creator'', '' /Creator({})'' @ [CHR 0x0A]),
      (''keywords'', '' /Keywords({})'' @ [CHR 0x0A]),
      (''producer'', '' /Producer({})'' @ [CHR 0x0A]),
      (''subject'', '' /Subject({})'' @ [CHR 0x0A]),
      (''title'', '' /Title({})'' @ [CHR 0x0A])]"

section \<open>The reader and the Python runtime\<close>

text \<open>
  What the editor takes from outside: the getters \<open>get_<name>()\<close> of the document (Perl
  regular expressions over the file, cached, so that a getter answers the same every
  time it is called), the position \<open>_get_startxref_position()\<close>, the last
  \<open>/ModDate(...)\<close> and \<open>CreateDate\<close> fields the Perl scan prints (offset, and the text up
  to the first blank), and two float computations of the Python runtime: the test
  \<open>abs(x - y) < 1e-6\<close> and the text of \<open>'{:0>2}'.format(a / b)\<close> with true division.
\<close>

record env =
  getter :: "string \<Rightarrow> pyerror + pyval"
  startxref_position :: nat
  moddate_field :: "(nat \<times> string) option"
  createdate_field :: "(nat \<times> string) option"
  near :: "rat \<Rightarrow> rat \<Rightarrow> bool"
  fmt_quot :: "rat \<Rightarrow> rat \<Rightarrow> string"

text \<open>
  \<open>retrieve_feature_dictionary\<close>: every catalog name with the value its getter returns,
  or with the exception the getter raised. Looking up another name raises \<open>KeyError\<close>
  (\<open>None\<close> here).
\<close>

definition retrieve_feature_dictionary :: "env \<Rightarrow> string \<Rightarrow> pyval option" where
  "retrieve_feature_dictionary rd name =
     (case map_of pdfrate_feature_descriptions name of
        None \<Rightarrow> None
      | Some _ \<Rightarrow> Some (case getter rd name of Inl e \<Rightarrow> ExcV e | Inr v \<Rightarrow> v))"

section \<open>The validator\<close>

text \<open>
  \<open>check_feature_change_valid\<close> returns \<open>True\<close> or an exception object; it raises only
  when the name is unknown, the getter raises, or a comparison does.
\<close>

datatype outcome =
    Valid
  | TypeErrorObj pytype pytype
  | ReadOnlyFeatureError string
  | MinimumExceededError string pyval pyval
  | MaximumExceededError string pyval pyval

text \<open>The lower range check: the bound that the value falls below, if it does.\<close>

definition below_minimum :: "bound \<Rightarrow> pyval \<Rightarrow> pyval \<Rightarrow> pyerror + pyval option" where
  "below_minimum lo current_value feat_val =
     (case lo of
        FileDefined \<Rightarrow>
          (case py_gt current_value feat_val of
             Inl e \<Rightarrow> Inl e
           | Inr b \<Rightarrow> Inr (if b then Some current_value else None))
      | Lit l \<Rightarrow>
          (case py_gt l feat_val of
             Inl e \<Rightarrow> Inl e
           | Inr b \<Rightarrow> Inr (if b then Some l else None)))"

definition above_maximum :: "bound \<Rightarrow> pyval \<Rightarrow> pyval \<Rightarrow> pyerror + pyval option" where
  "above_maximum hi current_value feat_val =
     (case hi of
        FileDefined \<Rightarrow>
          (case py_lt current_value feat_val of
             Inl e \<Rightarrow> Inl e
           | Inr b \<Rightarrow> Inr (if b then Some current_value else None))
      | Lit h \<Rightarrow>
          (case py_lt h feat_val of
             Inl e \<Rightarrow> Inl e
           | Inr b \<Rightarrow> Inr (if b then Some h else None)))"

text \<open>The checks of \<open>check_feature_change_valid\<close> once the description is at hand.\<close>

definition check_desc :: "env \<Rightarrow> string \<Rightarrow> feat_desc \<Rightarrow> pyval \<Rightarrow> pyerror + outcome" where
  "check_desc rd feat_name feat_desc feat_val =
     (if ftype feat_desc \<noteq> type_of feat_val
      then Inr (TypeErrorObj (type_of feat_val) (ftype feat_desc))
      else if edit feat_desc \<noteq> ''y'' then Inr (ReadOnlyFeatureError feat_name)
      else if type_of feat_val = TBool then Inr Valid
      else
        (case getter rd feat_name of
           Inl e \<Rightarrow> Inl e
         | Inr current_value \<Rightarrow>
             (case below_minimum (range_lo feat_desc) current_value feat_val of
                Inl e \<Rightarrow> Inl e
              | Inr (Some b) \<Rightarrow> Inr (MinimumExceededError feat_name b feat_val)
              | Inr None \<Rightarrow>
                  (case above_maximum (range_hi feat_desc) current_value feat_val of
                     Inl e \<Rightarrow> Inl e
                   | Inr (Some b) \<Rightarrow> Inr (MaximumExceededError feat_name b feat_val)
                   | Inr None \<Rightarrow> Inr Valid))))"

text \<open>
  \<open>FeatureEdit.check_feature_change_valid(feat, feat_val)\<close>, \<open>feat\<close> a feature name:
  the description is looked up in the catalog (\<open>KeyError\<close> for an unknown name).
\<close>

definition check_feature_change_valid :: "env \<Rightarrow> string \<Rightarrow> pyval \<Rightarrow> pyerror + outcome" where
  "check_feature_change_valid rd feat_name feat_val =
     (case map_of pdfrate_feature_descriptions feat_name of
        None \<Rightarrow> Inl (KeyError feat_name)
      | Some feat_desc \<Rightarrow> check_desc rd feat_name feat_desc feat_val)"

section \<open>The mutation orchestrator: state and the first pass\<close>

text \<open>
  A value of the report before it is finalised: the value written for a feature, or the
  exception object the validator returned for it.
\<close>

datatype repval = Val pyval | Err outcome

text \<open>
  The state \<open>modify_file\<close> threads through its steps: the memory map and the insertion
  offset, and the two dictionaries \<open>report\<close> and \<open>to_change\<close>, in insertion order.
\<close>

record edit_state = patcher +
  report :: "(string \<times> repval) list"
  to_change :: "(string \<times> pyval) list"

text \<open>The feature names a state mentions: the keys of its report and of its pending changes.\<close>

definition names :: "edit_state \<Rightarrow> string set" where
  "names st = fst ` set (report st) \<union> fst ` set (to_change st)"

text \<open>
  What a feature stands with in a report and pending changes: its pending value if it
  is pending, else its report entry. This is the \<open>'val'\<close> the final report will show.
\<close>

definition standing :: "(string \<times> repval) list \<Rightarrow> (string \<times> pyval) list \<Rightarrow> string \<Rightarrow> repval option" where
  "standing rep tc feat = (case map_of tc feat of Some v \<Rightarrow> Some (Val v) | None \<Rightarrow> map_of rep feat)"

text \<open>A \<open>for\<close> loop whose body may raise: the first exception ends it.\<close>

fun for_each :: "('a \<Rightarrow> 's \<Rightarrow> pyerror + 's) \<Rightarrow> 'a list \<Rightarrow> 's \<Rightarrow> pyerror + 's" where
  "for_each body [] s = Inr s"
| "for_each body (x # xs) s =
     (case body x s of Inl e \<Rightarrow> Inl e | Inr s' \<Rightarrow> for_each body xs s')"

text \<open>
  \<open>type(feat_val) == float and abs(features_current[feat] - feat_val) < 1e-6\<close>:
  subtracting from an exception object raises \<open>TypeError\<close>.
\<close>

definition near_equal :: "env \<Rightarrow> pyval \<Rightarrow> pyval \<Rightarrow> pyerror + bool" where
  "near_equal rd cur feat_val =
     (case feat_val of
        FloatV r \<Rightarrow> (case num cur of None \<Rightarrow> Inl TypeError | Some c \<Rightarrow> Inr (near rd c r))
      | _ \<Rightarrow> Inr False)"

text \<open>
  The body of the loop over \<open>sorted(features.items())\<close>, on the pair
  \<open>(report, to_change)\<close>. \<open>valid_fn\<close> is the validator the loop calls.
\<close>

definition select_change ::
  "(string \<Rightarrow> pyval \<Rightarrow> pyerror + outcome) \<Rightarrow> env \<Rightarrow> (string \<Rightarrow> pyval option) \<Rightarrow>
   string \<times> pyval \<Rightarrow> (string \<times> repval) list \<times> (string \<times> pyval) list \<Rightarrow>
   pyerror + (string \<times> repval) list \<times> (string \<times> pyval) list" where
  "select_change valid_fn rd features_current item acc =
     (case item of (feat, feat_val) \<Rightarrow>
      case acc of (rep, tc) \<Rightarrow>
      case features_current feat of
        None \<Rightarrow> Inl (KeyError feat)
      | Some cur \<Rightarrow>
          if py_ne cur feat_val \<and> type_of feat_val \<noteq> TExc then
            (case near_equal rd cur feat_val of
               Inl e \<Rightarrow> Inl e
             | Inr True \<Rightarrow> Inr (rep, tc)
             | Inr False \<Rightarrow>
                 (case valid_fn feat feat_val of
                    Inl e \<Rightarrow> Inl e
                  | Inr valid \<Rightarrow>
                      if valid = Valid then Inr (rep, AList.update feat feat_val tc)
                      else Inr (AList.update feat (Err valid) rep, tc)))
          else Inr (rep, tc))"

text \<open>
  The states the handlers meet in \<open>modify_file\<close>: the offset lies within the buffer, and
  the pending changes are a dictionary of values that the validator accepted.
\<close>

definition well_formed :: "env \<Rightarrow> edit_state \<Rightarrow> bool" where
  "well_formed rd st =
     (insert_offset st \<le> length (mm st) \<and> distinct (map fst (to_change st)) \<and>
      (\<forall>(k, w) \<in> set (to_change st). check_feature_change_valid rd k w = Inr Valid))"

section \<open>The handlers\<close>

subsection \<open>Version\<close>

definition is_digit :: "char \<Rightarrow> bool" where
  "is_digit c = (CHR ''0'' \<le> c \<and> c \<le> CHR ''9'')"

text \<open>
  \<open>_regex_pdf_version.search(mm)\<close> for the pattern \<open>%PDF-1\.(\d)\<close>: \<open>match.start(1)\<close>
  of the first match, the position of the digit.
\<close>

fun regex_pdf_version_search :: "string \<Rightarrow> nat option" where
  "regex_pdf_version_search [] = None"
| "regex_pdf_version_search (c # cs) =
     (if take 7 (c # cs) = ''%PDF-1.'' \<and> (case drop 7 (c # cs) of [] \<Rightarrow> False | d # _ \<Rightarrow> is_digit d)
      then Some 7
      else map_option Suc (regex_pdf_version_search cs))"

text \<open>\<open>int(v)\<close>: a float is cut towards zero.\<close>

fun py_int :: "pyval \<Rightarrow> pyerror + int" where
  "py_int (IntV i) = Inr i"
| "py_int (BoolV b) = Inr (if b then 1 else 0)"
| "py_int (FloatV r) = Inr (if 0 \<le> r then \<lfloor>r\<rfloor> else \<lceil>r\<rceil>)"
| "py_int (ExcV _) = Inl TypeError"

text \<open>
  The version step. \<open>mm[i] = n\<close> with an integer \<open>n\<close> stores the byte of value \<open>n\<close>,
  and raises \<open>ValueError\<close> when \<open>n\<close> is not in \<open>range(0, 256)\<close>.
\<close>

definition modify_version :: "edit_state \<Rightarrow> pyerror + edit_state" where
  "modify_version st =
     (case map_of (to_change st) ''version'' of
        None \<Rightarrow> Inr st
      | Some v \<Rightarrow>
          (case regex_pdf_version_search (mm st) of
             None \<Rightarrow> Inr st
           | Some pos \<Rightarrow>
               (case py_int v of
                  Inl e \<Rightarrow> Inl e
                | Inr n \<Rightarrow>
                    if n < 0 \<or> 255 < n then Inl ValueError
                    else Inr (st\<lparr>mm := (mm st)[pos := char_of n],
                                 report := AList.update ''version'' (Val v) (report st),
                                 to_change := AList.delete ''version'' (to_change st)\<rparr>))))"

subsection \<open>Incrementable features\<close>

text \<open>\<open>template.format(arg)\<close> for a template with one \<open>{}\<close> field.\<close>

fun format1 :: "string \<Rightarrow> string \<Rightarrow> string" where
  "format1 (c # d # cs) a =
     (if c = CHR ''{'' \<and> d = CHR ''}'' then a @ cs else c # format1 (d # cs) a)"
| "format1 cs a = cs"

text \<open>
  The body of the loop over \<open>_incrementable_feats\<close>. The difference is used as a
  repetition count: a float or an exception object on either side ends in \<open>TypeError\<close>.
\<close>

definition increment_feat ::
  "(string \<Rightarrow> pyval option) \<Rightarrow> string \<times> string \<Rightarrow> edit_state \<Rightarrow> pyerror + edit_state" where
  "increment_feat features_current fm st =
     (case fm of (feat, marker) \<Rightarrow>
      case map_of (to_change st) feat of
        None \<Rightarrow> Inr st
      | Some new_val \<Rightarrow>
          (case features_current feat of
             None \<Rightarrow> Inl (KeyError feat)
           | Some cur \<Rightarrow>
               (case int_of new_val of
                  Inl e \<Rightarrow> Inl e
                | Inr n \<Rightarrow>
                    (case int_of cur of
                       Inl e \<Rightarrow> Inl e
                     | Inr c \<Rightarrow>
                         (case insert_into_mmap
                                 (str_mul (format1 ('' {}'' @ [CHR 0x0A]) marker) (n - c)) st of
                            Inl e \<Rightarrow> Inl e
                          | Inr st' \<Rightarrow>
                              Inr (st'\<lparr>report := AList.update feat (Val new_val) (report st'),
                                       to_change := AList.delete feat (to_change st')\<rparr>))))))"

subsection \<open>Metadata fields\<close>

definition startswith :: "string \<Rightarrow> string \<Rightarrow> bool" where
  "startswith s p = (take (length p) s = p)"

definition endswith :: "string \<Rightarrow> string \<Rightarrow> bool" where
  "endswith s p = (length p \<le> length s \<and> drop (length s - length p) s = p)"

text \<open>
  \<open>[f[len(feat_prefix) + 1:] for f in to_change if f.startswith(feat_prefix) and not
  f.endswith(('mismatch', 'len'))]\<close>
\<close>

definition metadata_suffixes :: "string \<Rightarrow> (string \<times> pyval) list \<Rightarrow> string list" where
  "metadata_suffixes feat_prefix tc =
     map (drop (length feat_prefix + 1))
       (filter (\<lambda>f. startswith f feat_prefix \<and> \<not> (endswith f ''mismatch'' \<or> endswith f ''len''))
          (map fst tc))"

text \<open>
  The body of the loop over the suffixes, on the pair of the text gathered so far and
  the state. \<open>to_change[feat]\<close> raises \<open>KeyError\<close> when the rebuilt name is no key.
\<close>

definition add_suffix ::
  "string \<Rightarrow> string \<Rightarrow> string \<times> edit_state \<Rightarrow> pyerror + string \<times> edit_state" where
  "add_suffix feat_prefix feat_suffix acc =
     (case acc of (addendum, st) \<Rightarrow>
      let feat = feat_prefix @ ''_'' @ feat_suffix in
      case map_of (to_change st) feat of
        None \<Rightarrow> Inl (KeyError feat)
      | Some v \<Rightarrow>
          (case (if feat_suffix = ''lc'' then map_sum id (\<lambda>n. addendum @ str_mul ''a'' n) (int_of v)
                 else if feat_suffix = ''uc'' then map_sum id (\<lambda>n. addendum @ str_mul ''Z'' n) (int_of v)
                 else if feat_suffix = ''num'' then map_sum id (\<lambda>n. addendum @ str_mul ''3'' n) (int_of v)
                 else if feat_suffix = ''oth'' then map_sum id (\<lambda>n. addendum @ str_mul ''-'' n) (int_of v)
                 else if feat_suffix = ''dot'' then map_sum id (\<lambda>n. addendum @ str_mul ''.'' n) (int_of v)
                 else Inr addendum) of
             Inl e \<Rightarrow> Inl e
           | Inr addendum' \<Rightarrow>
               Inr (addendum',
                    st\<lparr>report := AList.update feat (Val v) (report st),
                       to_change := AList.delete feat (to_change st)\<rparr>)))"

text \<open>The body of the loop over \<open>_metadata_feats.items()\<close>.\<close>

definition modify_metadata_field :: "string \<times> string \<Rightarrow> edit_state \<Rightarrow> pyerror + edit_state" where
  "modify_metadata_field pf st =
     (case pf of (feat_prefix, feat_str) \<Rightarrow>
      case for_each (add_suffix feat_prefix) (metadata_suffixes feat_prefix (to_change st)) ([], st) of
        Inl e \<Rightarrow> Inl e
      | Inr (addendum, st') \<Rightarrow>
          if addendum \<noteq> [] then insert_into_mmap (format1 feat_str addendum) st' else Inr st')"

text \<open>
  For stating what the loop builds: the representative character of each class suffix,
  the pending names of a field that the loop takes up, the count a pending change asks
  for, and the text the loop adds for one name.
\<close>

definition class_chars :: "(string \<times> char) list" where
  "class_chars =
     [(''lc'', CHR ''a''), (''uc'', CHR ''Z''), (''num'', CHR ''3''), (''oth'', CHR ''-''),
      (''dot'', CHR ''.'')]"

definition field_keys :: "string \<Rightarrow> (string \<times> pyval) list \<Rightarrow> string list" where
  "field_keys feat_prefix tc =
     filter (\<lambda>f. startswith f feat_prefix \<and> \<not> (endswith f ''mismatch'' \<or> endswith f ''len''))
       (map fst tc)"



subsection \<open>Dates\<close>

text \<open>\<open>str(n)\<close> for an integer, and the format \<open>{:0>w}\<close>: zeros on the left up to width \<open>w\<close>.\<close>

definition digit_char :: "nat \<Rightarrow> char" where
  "digit_char d = char_of (48 + d)"

fun str_nat :: "nat \<Rightarrow> string" where
  "str_nat n = (if n < 10 then [digit_char n] else str_nat (n div 10) @ [digit_char (n mod 10)])"

declare str_nat.simps [simp del]

definition str_int :: "int \<Rightarrow> string" where
  "str_int i = (if i < 0 then CHR ''-'' # str_nat (nat (- i)) else str_nat (nat i))"

definition rjust0 :: "nat \<Rightarrow> string \<Rightarrow> string" where
  "rjust0 w s = replicate (w - length s) (CHR ''0'') @ s"

text \<open>
  \<open>time.gmtime(t)\<close>: the civil date and time of day of \<open>t\<close> seconds after the epoch, in
  the proleptic Gregorian calendar (the platform's limits on \<open>t\<close> are left out).
\<close>

record tm =
  tm_year :: int
  tm_mon :: int
  tm_mday :: int
  tm_hour :: int
  tm_min :: int
  tm_sec :: int

definition gmtime :: "int \<Rightarrow> tm" where
  "gmtime t =
     (let days = t div 86400;
          secs = t mod 86400;
          z = days + 719468;
          era = z div 146097;
          doe = z mod 146097;
          yoe = (doe - doe div 1460 + doe div 36524 - doe div 146096) div 365;
          doy = doe - (365 * yoe + yoe div 4 - yoe div 100);
          mp = (5 * doy + 2) div 153;
          m = (if mp < 10 then mp + 3 else mp - 9);
          y = yoe + era * 400
      in \<lparr>tm_year = (if m \<le> 2 then y + 1 else y),
          tm_mon = m,
          tm_mday = doy - (153 * mp + 2) div 5 + 1,
          tm_hour = secs div 3600,
          tm_min = secs mod 3600 div 60,
          tm_sec = secs mod 60\<rparr>)"

text \<open>The argument of \<open>time.gmtime\<close>: a float is rounded down.\<close>

fun gmtime_arg :: "pyval \<Rightarrow> pyerror + int" where
  "gmtime_arg (IntV i) = Inr i"
| "gmtime_arg (BoolV b) = Inr (if b then 1 else 0)"
| "gmtime_arg (FloatV r) = Inr \<lfloor>r\<rfloor>"
| "gmtime_arg (ExcV _) = Inl TypeError"

text \<open>The timestamp formats of the modification date and of the creation date.\<close>

definition ts_moddate :: "tm \<Rightarrow> string" where
  "ts_moddate a =
     rjust0 4 (str_int (tm_year a)) @ rjust0 2 (str_int (tm_mon a)) @ rjust0 2 (str_int (tm_mday a)) @
     rjust0 2 (str_int (tm_hour a)) @ rjust0 2 (str_int (tm_min a)) @ rjust0 2 (str_int (tm_sec a))"

definition ts_createdate :: "tm \<Rightarrow> string" where
  "ts_createdate a =
     rjust0 4 (str_int (tm_year a)) @ ''-'' @ rjust0 2 (str_int (tm_mon a)) @ ''-'' @
     rjust0 2 (str_int (tm_mday a)) @ ''T'' @ rjust0 2 (str_int (tm_hour a)) @ '':'' @
     rjust0 2 (str_int (tm_min a)) @ '':'' @ rjust0 2 (str_int (tm_sec a))"

text \<open>
  The timestamp part of a date: from the requested epoch \<open>to_change[feat]\<close>, which is
  then reported and removed, or else from the getter \<open>get_<getter_name>()\<close>.
\<close>

definition date_ts ::
  "env \<Rightarrow> string \<Rightarrow> string \<Rightarrow> (tm \<Rightarrow> string) \<Rightarrow> edit_state \<Rightarrow> pyerror + string \<times> edit_state" where
  "date_ts rd feat getter_name ts_format st =
     (case map_of (to_change st) feat of
        Some v \<Rightarrow>
          (case gmtime_arg v of
             Inl e \<Rightarrow> Inl e
           | Inr t \<Rightarrow>
               Inr (ts_format (gmtime t),
                    st\<lparr>report := AList.update feat (Val v) (report st),
                       to_change := AList.delete feat (to_change st)\<rparr>))
      | None \<Rightarrow>
          (case getter rd getter_name of
             Inl e \<Rightarrow> Inl e
           | Inr cur \<Rightarrow>
               (case gmtime_arg cur of
                  Inl e \<Rightarrow> Inl e
                | Inr t \<Rightarrow> Inr (ts_format (gmtime t), st))))"

text \<open>
  The timezone part of an offset \<open>tz\<close>: \<open>Z\<close> when it is zero, else the sign, then
  \<open>abs(tz) / 3600\<close> and \<open>(abs(tz) % 3600) / 60\<close> (true divisions, so floats) in the format
  \<open>{:0>2}\<close> around the separator.
\<close>

definition tz_format :: "env \<Rightarrow> string \<Rightarrow> pyval \<Rightarrow> pyerror + string" where
  "tz_format rd sep tz =
     (case num tz of
        None \<Rightarrow> Inl TypeError
      | Some r \<Rightarrow>
          Inr (if r = 0 then ''Z''
               else (if r > 0 then ''+'' else ''-'') @ fmt_quot rd \<bar>r\<bar> 3600 @ sep @
                    fmt_quot rd (\<bar>r\<bar> - 3600 * of_int \<lfloor>\<bar>r\<bar> / 3600\<rfloor>) 60))"

definition date_tz ::
  "env \<Rightarrow> string \<Rightarrow> string \<Rightarrow> string \<Rightarrow> string \<Rightarrow> edit_state \<Rightarrow> pyerror + string \<times> edit_state" where
  "date_tz rd feat new_sep getter_name old_sep st =
     (case map_of (to_change st) feat of
        Some new_tz \<Rightarrow>
          (case tz_format rd new_sep new_tz of
             Inl e \<Rightarrow> Inl e
           | Inr tz_str \<Rightarrow>
               Inr (tz_str,
                    st\<lparr>report := AList.update feat (Val new_tz) (report st),
                       to_change := AList.delete feat (to_change st)\<rparr>))
      | None \<Rightarrow>
          (case getter rd getter_name of
             Inl e \<Rightarrow> Inl e
           | Inr old_tz \<Rightarrow>
               (case tz_format rd old_sep old_tz of
                  Inl e \<Rightarrow> Inl e
                | Inr tz_str \<Rightarrow> Inr (tz_str, st))))"

text \<open>
  Writing the date. Where the document has a date field as long as the new date, the
  code seeks to it and calls \<open>mm.write\<close> with text, not bytes, which raises
  \<open>TypeError\<close>; otherwise the whole field is inserted.
\<close>

definition place_date :: "(nat \<times> string) option \<Rightarrow> string \<Rightarrow> string \<Rightarrow> edit_state \<Rightarrow> pyerror + edit_state" where
  "place_date field new_date new_field st =
     (case field of
        Some (mod_location, old_date) \<Rightarrow>
          if length new_date = length old_date
          then (if mod_location > length (mm st) then Inl ValueError else Inl TypeError)
          else insert_into_mmap new_field st
      | None \<Rightarrow> insert_into_mmap new_field st)"

definition modify_moddate :: "env \<Rightarrow> edit_state \<Rightarrow> pyerror + edit_state" where
  "modify_moddate rd st =
     (if map_of (to_change st) ''moddate_ts'' = None \<and> map_of (to_change st) ''moddate_tz'' = None
      then Inr st
      else
        case date_ts rd ''moddate_ts'' ''moddate_ts'' ts_moddate st of
          Inl e \<Rightarrow> Inl e
        | Inr (ts_str, st1) \<Rightarrow>
            (case date_tz rd ''moddate_tz'' [CHR 0x27] ''moddate_tz'' [CHR 0x27] st1 of
               Inl e \<Rightarrow> Inl e
             | Inr (tz_str, st2) \<Rightarrow>
                 place_date (moddate_field rd) (''D:'' @ ts_str @ tz_str)
                   (''/ModDate(D:'' @ ts_str @ tz_str @ '')'') st2))"

text \<open>
  The creation date. Without a requested \<open>createdate_ts\<close> the source reads
  \<open>self.get_moddate_ts()\<close>, and it formats an unchanged timezone with an apostrophe.
\<close>

definition modify_createdate :: "env \<Rightarrow> edit_state \<Rightarrow> pyerror + edit_state" where
  "modify_createdate rd st =
     (if map_of (to_change st) ''createdate_ts'' = None \<and> map_of (to_change st) ''createdate_tz'' = None
      then Inr st
      else
        case date_ts rd ''createdate_ts'' ''moddate_ts'' ts_createdate st of
          Inl e \<Rightarrow> Inl e
        | Inr (ts_str, st1) \<Rightarrow>
            (case date_tz rd ''createdate_tz'' '':'' ''createdate_tz'' [CHR 0x27] st1 of
               Inl e \<Rightarrow> Inl e
             | Inr (tz_str, st2) \<Rightarrow>
                 place_date (createdate_field rd) (ts_str @ tz_str)
                   (''<xap:CreateDate>'' @ ts_str @ tz_str @ ''</xap:CreateDate>'') st2))"

subsection \<open>Size\<close>

text \<open>
  \<open>insert_count = to_change['size'] - mm.size()\<close>; spaces are inserted when it is
  positive, and otherwise \<open>size\<close> stays in \<open>to_change\<close>.
\<close>

definition modify_size :: "edit_state \<Rightarrow> pyerror + edit_state" where
  "modify_size st =
     (case map_of (to_change st) ''size'' of
        None \<Rightarrow> Inr st
      | Some v \<Rightarrow>
          (case num v of
             None \<Rightarrow> Inl TypeError
           | Some r \<Rightarrow>
               if r - of_nat (length (mm st)) > 0 then
                 (case int_of v of
                    Inl e \<Rightarrow> Inl e
                  | Inr n \<Rightarrow>
                      (case insert_into_mmap (str_mul '' '' (n - int (length (mm st)))) st of
                         Inl e \<Rightarrow> Inl e
                       | Inr st' \<Rightarrow>
                           Inr (st'\<lparr>report := AList.update ''size'' (Val v) (report st'),
                                    to_change := AList.delete ''size'' (to_change st')\<rparr>)))
               else Inr st))"

section \<open>The whole mutation\<close>

text \<open>\<open>isinstance(report[k], Exception)\<close>\<close>

fun is_exception :: "repval \<Rightarrow> bool" where
  "is_exception (Err _) = True"
| "is_exception (Val (ExcV _)) = True"
| "is_exception (Val _) = False"

text \<open>
  The two closing loops: every entry of the report becomes \<open>{'success': ..., 'val': ...}\<close>,
  and every feature left in \<open>to_change\<close> is entered as a failure.
\<close>

definition finalize_report ::
  "(string \<times> repval) list \<Rightarrow> (string \<times> pyval) list \<Rightarrow> (string \<times> bool \<times> repval) list" where
  "finalize_report rep tc =
     fold (\<lambda>k r. case map_of tc k of Some v \<Rightarrow> AList.update k (False, Val v) r | None \<Rightarrow> r)
       (map fst tc)
       (map (\<lambda>(k, v). (k, (\<not> is_exception v, v))) rep)"

text \<open>
  What \<open>modify_file\<close> returns: the bytes of the file at \<open>'path'\<close> and the \<open>'report'\<close>.
  (\<open>'feats'\<close> is the reader's answer on the new file.)
\<close>

record result =
  newpdf :: string
  final_report :: "(string \<times> bool \<times> repval) list"

text \<open>
  \<open>FeatureEdit.modify_file(features)\<close> for a dictionary \<open>features\<close>, given by its items,
  on a document with the bytes \<open>oldbytes\<close>. An empty file cannot be mapped
  (\<open>ValueError\<close>).
\<close>

definition modify_file :: "env \<Rightarrow> (string \<times> pyval) list \<Rightarrow> string \<Rightarrow> pyerror + result" where
  "modify_file rd features oldbytes =
     (if oldbytes = [] then Inl ValueError
      else
        let features_current = retrieve_feature_dictionary rd in
        case for_each (select_change (check_feature_change_valid rd) rd features_current)
               (sort_key fst features) ([], []) of
          Inl e \<Rightarrow> Inl e
        | Inr (rep, tc) \<Rightarrow>
            (case modify_version
                    \<lparr>mm = oldbytes, insert_offset = startxref_position rd,
                     report = rep, to_change = tc\<rparr> of
               Inl e \<Rightarrow> Inl e
             | Inr st1 \<Rightarrow>
            (case for_each (increment_feat features_current) incrementable_feats st1 of
               Inl e \<Rightarrow> Inl e
             | Inr st2 \<Rightarrow>
            (case for_each modify_metadata_field metadata_feats st2 of
               Inl e \<Rightarrow> Inl e
             | Inr st3 \<Rightarrow>
            (case modify_moddate rd st3 of
               Inl e \<Rightarrow> Inl e
             | Inr st4 \<Rightarrow>
            (case modify_createdate rd st4 of
               Inl e \<Rightarrow> Inl e
             | Inr st5 \<Rightarrow>
            (case modify_size st5 of
               Inl e \<Rightarrow> Inl e
             | Inr st6 \<Rightarrow>
                 Inr \<lparr>newpdf = mm st6,
                      final_report = finalize_report (report st6) (to_change st6)\<rparr>)))))))"

section \<open>An example document\<close>

text \<open>
  A reader for the examples below: the getters are given, the document has no date
  fields, the near-equality test is the exact one, and the quotient text is right for
  whole quotients.
\<close>

definition example_env :: "(string \<Rightarrow> pyerror + pyval) \<Rightarrow> env" where
  "example_env g =
     \<lparr>getter = g, startxref_position = 0, moddate_field = None, createdate_field = None,
      near = (\<lambda>a b. \<bar>a - b\<bar> < 1 / 1000000), fmt_quot = (\<lambda>a b. str_int \<lfloor>a / b\<rfloor> @ ''.0'')\<rparr>"

text \<open>
  A small document with a creation date and a modification date, and the reader's
  answers on it: version 3, 113 bytes, created at epoch 1000000000 in the zone +01:00,
  modified at epoch 86400 in the zone Z; \<open>startxref\<close> stands at offset 96. Every getter
  not listed is taken to answer 0.
\<close>

definition sample_pdf :: string where
  "sample_pdf = ''%PDF-1.3 <xap:CreateDate>2001-09-09T02:46:40+01:00</xap:CreateDate> /ModDate(D:19700102000000Z) startxref 0 %%EOF''"

definition sample_env :: env where
  "sample_env =
     \<lparr>getter = (\<lambda>name. Inr (case map_of
          [(''version'', IntV 3), (''size'', IntV 113), (''createdate_ts'', IntV 1000000000),
           (''createdate_tz'', IntV 3600), (''moddate_ts'', IntV 86400), (''moddate_tz'', IntV 0),
           (''count_startxref'', IntV 1), (''count_eof'', IntV 1)] name of
          Some v \<Rightarrow> v | None \<Rightarrow> IntV 0)),
      startxref_position = 96,
      moddate_field = Some (77, ''D:19700102000000Z''),
      createdate_field = Some (25, ''2001-09-09T02:46:40+01:00''),
      near = (\<lambda>a b. \<bar>a - b\<bar> < 1 / 1000000),
      fmt_quot = (\<lambda>a b. str_int \<lfloor>a / b\<rfloor> @ ''.0'')\<rparr>"



section \<open>Properties of the byte patcher\<close>


lemma mmap_resize_grow: "mmap_resize b (length b + n) = b @ replicate n (CHR 0x00)"
  by (simp add: mmap_resize_def)

lemma mmap_move_trailer:
  assumes "off \<le> length b"
  shows "mmap_move (b @ zs) (off + length zs) off (int (length b) - int off) =
           Inr (take off b @ take (length zs) (drop off b @ zs) @ drop off b)"
proof -
  have cnt: "nat (int (length b) - int off) = length b - off"
    using assms by simp
  have "take (off + length zs) (b @ zs) = take off b @ take (length zs) (drop off b @ zs)"
    using assms by (simp add: take_add add.commute)
  moreover have "take (length b - off) (drop off (b @ zs)) = drop off b"
    using assms by simp
  moreover have "drop (off + length zs + (length b - off)) (b @ zs) = []"
    using assms by simp
  ultimately show ?thesis
    using assms by (simp add: mmap_move_def cnt)
qed

lemma mmap_seek_write_gap:
  assumes "length g = length d"
  shows "mmap_seek_write (p @ g @ t) (length p) d = Inr (p @ d @ t)"
  using assms by (simp add: mmap_seek_write_def)

lemma insert_into_mmap_splice:
  assumes "insert_offset st \<le> length (mm st)"
  shows "insert_into_mmap data st =
           Inr (st\<lparr>mm := take (insert_offset st) (mm st) @ encode data @ drop (insert_offset st) (mm st),
                   insert_offset := insert_offset st + length (encode data)\<rparr>)"
proof -
  let ?b = "mm st" and ?off = "insert_offset st" and ?d = "encode data"
  let ?zs = "replicate (length ?d) (CHR 0x00)"
  let ?g = "take (length ?zs) (drop ?off ?b @ ?zs)"
  have moved: "mmap_move (?b @ ?zs) (?off + length ?d) ?off (int (length ?b) - int ?off) =
                 Inr (take ?off ?b @ ?g @ drop ?off ?b)"
    using mmap_move_trailer [OF assms, of ?zs] by simp
  have len_g: "length ?g = length ?d"
    by simp
  have len_p: "length (take ?off ?b) = ?off"
    using assms by simp
  have written: "mmap_seek_write (take ?off ?b @ ?g @ drop ?off ?b) ?off ?d =
                   Inr (take ?off ?b @ ?d @ drop ?off ?b)"
    using mmap_seek_write_gap [OF len_g, of "take ?off ?b" "drop ?off ?b"] len_p by simp
  show ?thesis
    unfolding insert_into_mmap_def Let_def mmap_resize_grow moved
    by (simp only: sum.case written)
qed

lemma insert_into_mmap_out_of_range:
  "length (mm st) < insert_offset st \<Longrightarrow> insert_into_mmap data st = Inl ValueError"
  by (simp add: insert_into_mmap_def Let_def mmap_move_def)

lemma insert_seq_splice:
  "insert_offset st \<le> length (mm st) \<Longrightarrow>
   insert_seq ds st =
     Inr (st\<lparr>mm := take (insert_offset st) (mm st) @ concat (map encode ds) @ drop (insert_offset st) (mm st),
             insert_offset := insert_offset st + length (concat (map encode ds))\<rparr>)"
proof (induction ds arbitrary: st)
  case Nil
  then show ?case by simp
next
  case (Cons d ds)
  let ?st1 = "st\<lparr>mm := take (insert_offset st) (mm st) @ encode d @ drop (insert_offset st) (mm st),
                  insert_offset := insert_offset st + length (encode d)\<rparr>"
  have inv: "insert_offset ?st1 \<le> length (mm ?st1)"
    using Cons.prems by simp
  show ?case
    using Cons.prems Cons.IH [OF inv]
    by (simp add: insert_into_mmap_splice)
qed

lemma length_concat_encode:
  "length (concat (map encode ds)) = sum_list (map (\<lambda>d. length (encode d)) ds)"
  by (induction ds) simp_all

text \<open>
  Claim C1. Whenever the offset lies within the buffer, \<open>_insert_into_mmap\<close> returns, the
  buffer grows by the number of bytes of the data, the bytes before the offset stay, the
  data stands at the offset, the bytes formerly from the offset to the end stand right
  after the data, and the offset advances by the number of bytes of the data. Any sequence
  of insertions therefore returns, lengthens the buffer by the sum of the data lengths,
  keeps the original bytes from the first offset to the end, unperturbed, that sum further
  on, and leaves the offset advanced by that sum.
\<close>

theorem insert_into_mmap_correct:
  assumes "insert_offset st \<le> length (mm st)"
  shows "(\<exists>st'. insert_into_mmap data st = Inr st' \<and>
            length (mm st') = length (mm st) + length (encode data) \<and>
            take (insert_offset st) (mm st') = take (insert_offset st) (mm st) \<and>
            take (length (encode data)) (drop (insert_offset st) (mm st')) = encode data \<and>
            drop (insert_offset st + length (encode data)) (mm st') = drop (insert_offset st) (mm st) \<and>
            insert_offset st' = insert_offset st + length (encode data)) \<and>
         (\<exists>st'. insert_seq ds st = Inr st' \<and>
            length (mm st') = length (mm st) + (\<Sum>d\<leftarrow>ds. length (encode d)) \<and>
            take (insert_offset st) (mm st') = take (insert_offset st) (mm st) \<and>
            drop (insert_offset st + (\<Sum>d\<leftarrow>ds. length (encode d))) (mm st') =
              drop (insert_offset st) (mm st) \<and>
            insert_offset st' = insert_offset st + (\<Sum>d\<leftarrow>ds. length (encode d)))"
proof (intro conjI)
  let ?off = "insert_offset st"
  have len_take: "length (take ?off (mm st)) = ?off"
    using assms by simp
  show "\<exists>st'. insert_into_mmap data st = Inr st' \<and>
          length (mm st') = length (mm st) + length (encode data) \<and>
          take ?off (mm st') = take ?off (mm st) \<and>
          take (length (encode data)) (drop ?off (mm st')) = encode data \<and>
          drop (?off + length (encode data)) (mm st') = drop ?off (mm st) \<and>
          insert_offset st' = ?off + length (encode data)"
    using assms len_take by (simp add: insert_into_mmap_splice)
  let ?n = "\<Sum>d\<leftarrow>ds. length (encode d)"
  have n: "length (concat (map encode ds)) = ?n"
    by (rule length_concat_encode)
  show "\<exists>st'. insert_seq ds st = Inr st' \<and>
          length (mm st') = length (mm st) + ?n \<and>
          take ?off (mm st') = take ?off (mm st) \<and>
          drop (?off + ?n) (mm st') = drop ?off (mm st) \<and>
          insert_offset st' = ?off + ?n"
    using assms len_take n by (simp add: insert_seq_splice)
qed

theorem insert_into_mmap_correct_witness:
  "insert_offset \<lparr>mm = ''abcdef'', insert_offset = 4\<rparr> \<le> length (mm \<lparr>mm = ''abcdef'', insert_offset = 4\<rparr>) \<and>
   (\<exists>st'. insert_into_mmap ''XY'' \<lparr>mm = ''abcdef'', insert_offset = 4\<rparr> = Inr st' \<and>
      length (mm st') = 8 \<and> take 4 (mm st') = ''abcd'' \<and> take 2 (drop 4 (mm st')) = ''XY'' \<and>
      drop 6 (mm st') = ''ef'' \<and> insert_offset st' = 6) \<and>
   (\<exists>st'. insert_seq [''XY'', ''Z'', ''123''] \<lparr>mm = ''abcdef'', insert_offset = 4\<rparr> = Inr st' \<and>
      length (mm st') = 12 \<and> take 4 (mm st') = ''abcd'' \<and> drop 10 (mm st') = ''ef'' \<and>
      insert_offset st' = 10)"
proof -
  have e: "encode ''XY'' = ''XY''" "encode ''Z'' = ''Z''" "encode ''123'' = ''123''"
    by (simp_all add: encode_def encode_char_def)
  show ?thesis
    using insert_into_mmap_correct [of "\<lparr>mm = ''abcdef'', insert_offset = 4\<rparr>" "''XY''" "[''XY'', ''Z'', ''123'']"]
    by (simp add: e insert_into_mmap_splice)
qed

section \<open>Properties of the validator\<close>


lemma check_desc_range:
  assumes "edit d = ''y''" and "ftype d \<noteq> TBool"
    and "getter rd feat = Inr cur" and "num cur = Some c" and "num v = Some x"
  shows "(range_lo d = FileDefined \<longrightarrow>
            (check_desc rd feat d v = Inr Valid \<longrightarrow> c \<le> x) \<and>
            (type_of v = ftype d \<and> x < c \<longrightarrow>
               check_desc rd feat d v = Inr (MinimumExceededError feat cur v))) \<and>
         (\<forall>l lq. range_lo d = Lit l \<and> num l = Some lq \<longrightarrow>
            (check_desc rd feat d v = Inr Valid \<longrightarrow> lq \<le> x) \<and>
            (type_of v = ftype d \<and> x < lq \<longrightarrow>
               check_desc rd feat d v = Inr (MinimumExceededError feat l v))) \<and>
         (range_hi d = FileDefined \<longrightarrow>
            (check_desc rd feat d v = Inr Valid \<longrightarrow> x \<le> c) \<and>
            (type_of v = ftype d \<and> below_minimum (range_lo d) cur v = Inr None \<and> c < x \<longrightarrow>
               check_desc rd feat d v = Inr (MaximumExceededError feat cur v))) \<and>
         (\<forall>h hq. range_hi d = Lit h \<and> num h = Some hq \<longrightarrow>
            (check_desc rd feat d v = Inr Valid \<longrightarrow> x \<le> hq) \<and>
            (type_of v = ftype d \<and> below_minimum (range_lo d) cur v = Inr None \<and> hq < x \<longrightarrow>
               check_desc rd feat d v = Inr (MaximumExceededError feat h v)))"
  using assms
  by (auto simp: check_desc_def below_minimum_def above_maximum_def py_gt_def py_lt_def
      split: bound.splits sum.splits option.splits if_splits)

lemma lookup_count_page:
  "map_of pdfrate_feature_descriptions ''count_page'' = Some (desc TInt FileDefined (Lit (IntV 1341)) ''y'')"
  by (simp add: pdfrate_feature_descriptions_def)

lemma lookup_version:
  "map_of pdfrate_feature_descriptions ''version'' = Some (desc TInt (Lit (IntV 1)) (Lit (IntV 8)) ''y'')"
  by (simp add: pdfrate_feature_descriptions_def)

text \<open>
  Claim C2. For an editable numeric feature of the catalog whose getter answers a
  number, and a requested number: with a file-defined lower bound the validator accepts
  only a value that is at least the current value, and a lower value of the declared type
  is answered by \<open>MinimumExceededError\<close> carrying the current value; with a literal lower
  bound it accepts only a value that is at least the literal, and a lower value of the
  declared type is answered by \<open>MinimumExceededError\<close> carrying the literal. The upper
  bound is treated the same way once the lower check has passed, with
  \<open>MaximumExceededError\<close>.
\<close>

theorem check_feature_change_valid_bounds:
  assumes "map_of pdfrate_feature_descriptions feat = Some d"
    and "edit d = ''y''" and "ftype d \<noteq> TBool"
    and "getter rd feat = Inr cur" and "num cur = Some c" and "num v = Some x"
  shows "(range_lo d = FileDefined \<longrightarrow>
            (check_feature_change_valid rd feat v = Inr Valid \<longrightarrow> c \<le> x) \<and>
            (type_of v = ftype d \<and> x < c \<longrightarrow>
               check_feature_change_valid rd feat v = Inr (MinimumExceededError feat cur v))) \<and>
         (\<forall>l lq. range_lo d = Lit l \<and> num l = Some lq \<longrightarrow>
            (check_feature_change_valid rd feat v = Inr Valid \<longrightarrow> lq \<le> x) \<and>
            (type_of v = ftype d \<and> x < lq \<longrightarrow>
               check_feature_change_valid rd feat v = Inr (MinimumExceededError feat l v))) \<and>
         (range_hi d = FileDefined \<longrightarrow>
            (check_feature_change_valid rd feat v = Inr Valid \<longrightarrow> x \<le> c) \<and>
            (type_of v = ftype d \<and> below_minimum (range_lo d) cur v = Inr None \<and> c < x \<longrightarrow>
               check_feature_change_valid rd feat v = Inr (MaximumExceededError feat cur v))) \<and>
         (\<forall>h hq. range_hi d = Lit h \<and> num h = Some hq \<longrightarrow>
            (check_feature_change_valid rd feat v = Inr Valid \<longrightarrow> x \<le> hq) \<and>
            (type_of v = ftype d \<and> below_minimum (range_lo d) cur v = Inr None \<and> hq < x \<longrightarrow>
               check_feature_change_valid rd feat v = Inr (MaximumExceededError feat h v)))"
proof -
  have eq: "check_feature_change_valid rd feat v = check_desc rd feat d v"
    using assms(1) by (simp add: check_feature_change_valid_def)
  show ?thesis
    unfolding eq by (rule check_desc_range [OF assms(2-6)])
qed

theorem check_feature_change_valid_bounds_witness:
  "check_feature_change_valid (example_env (\<lambda>n. Inr (IntV 3))) ''count_page'' (IntV 2) =
     Inr (MinimumExceededError ''count_page'' (IntV 3) (IntV 2)) \<and>
   check_feature_change_valid (example_env (\<lambda>n. Inr (IntV 3))) ''count_page'' (IntV 2000) =
     Inr (MaximumExceededError ''count_page'' (IntV 1341) (IntV 2000)) \<and>
   check_feature_change_valid (example_env (\<lambda>n. Inr (IntV 3))) ''version'' (IntV 0) =
     Inr (MinimumExceededError ''version'' (IntV 1) (IntV 0)) \<and>
   check_feature_change_valid (example_env (\<lambda>n. Inr (IntV 3))) ''version'' (IntV 9) =
     Inr (MaximumExceededError ''version'' (IntV 8) (IntV 9)) \<and>
   check_feature_change_valid (example_env (\<lambda>n. Inr (IntV 3))) ''count_page'' (IntV 5) = Inr Valid"
proof -
  let ?rd = "example_env (\<lambda>n. Inr (IntV 3))"
  have valid: "check_feature_change_valid ?rd ''count_page'' (IntV 5) = Inr Valid"
    by (simp add: check_feature_change_valid_def lookup_count_page check_desc_def desc_def
        example_env_def below_minimum_def above_maximum_def py_gt_def py_lt_def)
  show ?thesis
    using
      check_feature_change_valid_bounds [OF lookup_count_page, of ?rd "IntV 3" 3 "IntV 2" 2]
      check_feature_change_valid_bounds [OF lookup_count_page, of ?rd "IntV 3" 3 "IntV 2000" 2000]
      check_feature_change_valid_bounds [OF lookup_version, of ?rd "IntV 3" 3 "IntV 0" 0]
      check_feature_change_valid_bounds [OF lookup_version, of ?rd "IntV 3" 3 "IntV 9" 9]
      valid
    by (simp add: desc_def example_env_def below_minimum_def py_gt_def)
qed

lemma bool_feats_catalog:
  "list_all (\<lambda>(n, d). ftype d = TBool \<longrightarrow> (n = ''box_other_only'' \<or> n = ''pdfid_mismatch'') \<and> edit d = ''m'')
     pdfrate_feature_descriptions"
  by (simp add: pdfrate_feature_descriptions_def desc_def)

lemma lookup_box_other_only:
  "map_of pdfrate_feature_descriptions ''box_other_only'' = Some (desc TBool (Lit (BoolV False)) (Lit (BoolV True)) ''m'')"
  by (simp add: pdfrate_feature_descriptions_def)

lemma lookup_pdfid_mismatch:
  "map_of pdfrate_feature_descriptions ''pdfid_mismatch'' = Some (desc TBool (Lit (BoolV False)) (Lit (BoolV True)) ''m'')"
  by (simp add: pdfrate_feature_descriptions_def)

lemma bool_desc_read_only:
  assumes "map_of pdfrate_feature_descriptions feat = Some d" and "ftype d = TBool"
  shows "(feat = ''box_other_only'' \<or> feat = ''pdfid_mismatch'') \<and> edit d = ''m''"
proof -
  have "(feat, d) \<in> set pdfrate_feature_descriptions"
    using assms(1) by (rule map_of_SomeD)
  then show ?thesis
    using bool_feats_catalog assms(2) by (auto simp: list_all_iff)
qed

text \<open>
  Claim C10. The two boolean features of the catalog, \<open>box_other_only\<close> and
  \<open>pdfid_mismatch\<close>, have edit status \<open>'m'\<close>, and they are the only boolean ones; every
  boolean request for a boolean feature is answered by \<open>ReadOnlyFeatureError\<close>; no
  catalog entry lets a request reach the branch that accepts booleans without a range
  check; and the validator accepts no boolean request for any feature.
\<close>

theorem boolean_features_read_only:
  "map_of pdfrate_feature_descriptions ''box_other_only'' =
     Some (desc TBool (Lit (BoolV False)) (Lit (BoolV True)) ''m'') \<and>
   map_of pdfrate_feature_descriptions ''pdfid_mismatch'' =
     Some (desc TBool (Lit (BoolV False)) (Lit (BoolV True)) ''m'') \<and>
   (\<forall>feat d. map_of pdfrate_feature_descriptions feat = Some d \<and> ftype d = TBool \<longrightarrow>
      (feat = ''box_other_only'' \<or> feat = ''pdfid_mismatch'') \<and> edit d = ''m'' \<and>
      (\<forall>b. check_feature_change_valid rd feat (BoolV b) = Inr (ReadOnlyFeatureError feat))) \<and>
   (\<forall>feat d v. map_of pdfrate_feature_descriptions feat = Some d \<longrightarrow>
      \<not> (ftype d = type_of v \<and> edit d = ''y'' \<and> type_of v = TBool)) \<and>
   (\<forall>feat b. check_feature_change_valid rd feat (BoolV b) \<noteq> Inr Valid)"
proof (intro conjI allI impI)
  show "map_of pdfrate_feature_descriptions ''box_other_only'' =
     Some (desc TBool (Lit (BoolV False)) (Lit (BoolV True)) ''m'')"
    by (rule lookup_box_other_only)
  show "map_of pdfrate_feature_descriptions ''pdfid_mismatch'' =
     Some (desc TBool (Lit (BoolV False)) (Lit (BoolV True)) ''m'')"
    by (rule lookup_pdfid_mismatch)
next
  fix feat d
  assume a: "map_of pdfrate_feature_descriptions feat = Some d \<and> ftype d = TBool"
  then show "feat = ''box_other_only'' \<or> feat = ''pdfid_mismatch''" and m: "edit d = ''m''"
    using bool_desc_read_only by blast+
  fix b
  show "check_feature_change_valid rd feat (BoolV b) = Inr (ReadOnlyFeatureError feat)"
    using a m by (simp add: check_feature_change_valid_def check_desc_def)
next
  fix feat d v
  assume "map_of pdfrate_feature_descriptions feat = Some d"
  then show "\<not> (ftype d = type_of v \<and> edit d = ''y'' \<and> type_of v = TBool)"
    using bool_desc_read_only [of feat d] by auto
next
  fix feat b
  show "check_feature_change_valid rd feat (BoolV b) \<noteq> Inr Valid"
  proof (cases "map_of pdfrate_feature_descriptions feat")
    case None
    then show ?thesis by (simp add: check_feature_change_valid_def)
  next
    case (Some d)
    then show ?thesis
      using bool_desc_read_only [of feat d]
      by (auto simp: check_feature_change_valid_def check_desc_def)
  qed
qed

theorem boolean_features_read_only_witness:
  "check_feature_change_valid (example_env (\<lambda>n. Inr (BoolV False))) ''box_other_only'' (BoolV True) =
     Inr (ReadOnlyFeatureError ''box_other_only'') \<and>
   check_feature_change_valid (example_env (\<lambda>n. Inr (BoolV False))) ''pdfid_mismatch'' (BoolV True) =
     Inr (ReadOnlyFeatureError ''pdfid_mismatch'')"
proof -
  note ro = boolean_features_read_only [of "example_env (\<lambda>n. Inr (BoolV False))",
      THEN conjunct2, THEN conjunct2, THEN conjunct1, rule_format]
  have a: "map_of pdfrate_feature_descriptions ''box_other_only'' =
             Some (desc TBool (Lit (BoolV False)) (Lit (BoolV True)) ''m'') \<and>
           ftype (desc TBool (Lit (BoolV False)) (Lit (BoolV True)) ''m'') = TBool"
    by (simp add: lookup_box_other_only desc_def)
  have b: "map_of pdfrate_feature_descriptions ''pdfid_mismatch'' =
             Some (desc TBool (Lit (BoolV False)) (Lit (BoolV True)) ''m'') \<and>
           ftype (desc TBool (Lit (BoolV False)) (Lit (BoolV True)) ''m'') = TBool"
    by (simp add: lookup_pdfid_mismatch desc_def)
  show ?thesis
    using ro [OF a] ro [OF b] by simp
qed

section \<open>The mutation at concrete documents\<close>

lemmas eval_defs = modify_file_def select_change_def check_feature_change_valid_def check_desc_def
  retrieve_feature_dictionary_def near_equal_def py_ne_def py_gt_def py_lt_def below_minimum_def above_maximum_def
  modify_version_def increment_feat_def modify_metadata_field_def metadata_suffixes_def add_suffix_def
  modify_moddate_def modify_createdate_def date_ts_def date_tz_def tz_format_def place_date_def modify_size_def
  finalize_report_def desc_def startswith_def endswith_def is_digit_def
  incrementable_feats_def metadata_feats_def Let_def char_of_def
  sample_env_def sample_pdf_def

lemma lookup_createdate_tz:
  "map_of pdfrate_feature_descriptions ''createdate_tz'' = Some (desc TInt (Lit (IntV (-36000))) (Lit (IntV 46800)) ''y'')"
  by (simp add: pdfrate_feature_descriptions_def)

lemma lookup_moddate_ts:
  "map_of pdfrate_feature_descriptions ''moddate_ts'' = Some (desc TInt (Lit (IntV 0)) (Lit (IntV 2058951292)) ''y'')"
  by (simp add: pdfrate_feature_descriptions_def)

lemma createdate_text_of_creation_epoch: "ts_createdate (gmtime 1000000000) = ''2001-09-09T01:46:40''"
  by code_simp

lemma createdate_text_of_modification_epoch: "ts_createdate (gmtime 86400) = ''1970-01-02T00:00:00''"
  by code_simp

lemma moddate_text_of_requested_epoch: "ts_moddate (gmtime 1000000000) = ''20010909014640''"
  by code_simp

text \<open>
  Claim C4, at a concrete document. Requesting version 5 on the sample document (version
  3) is accepted, reported as a success and removed from the pending changes, and the
  length stays; but the byte written at the anchor is the byte of value 5, not the digit
  character \<open>5\<close>.
\<close>

theorem version_written_as_raw_byte:
  "modify_file sample_env [(''version'', IntV 5)] sample_pdf =
     Inr \<lparr>newpdf = ''%PDF-1.'' @ [CHR 0x05] @ drop 8 sample_pdf,
          final_report = [(''version'', True, Val (IntV 5))]\<rparr> \<and>
   CHR 0x05 \<noteq> CHR ''5''"
  by (simp add: eval_defs lookup_version)

text \<open>
  Claim C5, at a concrete document. Requesting the creation timezone 0 alone on the
  sample document inserts a creation date whose timestamp part is the epoch of the
  modification date (86400, the second of January 1970), not the document's creation
  epoch (1000000000, the ninth of September 2001).
\<close>

theorem createdate_renders_moddate_epoch:
  "modify_file sample_env [(''createdate_tz'', IntV 0)] sample_pdf =
     Inr \<lparr>newpdf = take 96 sample_pdf @ ''<xap:CreateDate>1970-01-02T00:00:00Z</xap:CreateDate>'' @ drop 96 sample_pdf,
          final_report = [(''createdate_tz'', True, Val (IntV 0))]\<rparr> \<and>
   getter sample_env ''createdate_ts'' = Inr (IntV 1000000000) \<and>
   getter sample_env ''moddate_ts'' = Inr (IntV 86400) \<and>
   ts_createdate (gmtime 1000000000) = ''2001-09-09T01:46:40'' \<and>
   ts_createdate (gmtime 86400) = ''1970-01-02T00:00:00''"
  by (simp add: eval_defs lookup_createdate_tz encode_def encode_char_def insert_into_mmap_splice createdate_text_of_creation_epoch createdate_text_of_modification_epoch)

text \<open>
  Claim C9, at a concrete document. Requesting the modification epoch 1000000000 on the
  sample document is accepted by the validator; the new date is as long as the
  document's date field, the in-place write is attempted, and the mutation ends with
  \<open>TypeError\<close> instead of a report.
\<close>

theorem date_overwrite_aborts:
  "modify_file sample_env [(''moddate_ts'', IntV 1000000000)] sample_pdf = Inl TypeError"
  by (simp add: eval_defs lookup_moddate_ts moddate_text_of_requested_epoch)

section \<open>Properties of the report and of the size step\<close>

lemma map_of_fold_update:
  "map_of (fold (\<lambda>k r. case map_of tc k of Some v \<Rightarrow> AList.update k (F v) r | None \<Rightarrow> r) ks r0) k =
     (if k \<in> set ks then (case map_of tc k of Some v \<Rightarrow> Some (F v) | None \<Rightarrow> map_of r0 k)
      else map_of r0 k)"
  by (induction ks arbitrary: r0) (auto simp: update_conv' split: option.splits)

lemma map_of_finalize_report:
  "map_of (finalize_report rep tc) k =
     (case map_of tc k of
        Some v \<Rightarrow> Some (False, Val v)
      | None \<Rightarrow> map_option (\<lambda>v. (\<not> is_exception v, v)) (map_of rep k))"
proof -
  have m: "map_of (map (\<lambda>(k, v). (k, (\<not> is_exception v, v))) rep) k =
             map_option (\<lambda>v. (\<not> is_exception v, v)) (map_of rep k)"
    by (induction rep) auto
  have d: "k \<notin> set (map fst tc) \<Longrightarrow> map_of tc k = None"
    by (simp add: map_of_eq_None_iff)
  show ?thesis
    unfolding finalize_report_def map_of_fold_update m
    using d by (auto split: option.splits)
qed





section \<open>Properties of the counter handler\<close>







section \<open>The first pass and requests that change nothing\<close>




lemma names_same:
  "report st' = report st \<Longrightarrow> to_change st' = to_change st \<Longrightarrow> names st' = names st"
  by (simp add: names_def)

lemma insert_into_mmap_frame:
  "insert_into_mmap d (st :: edit_state) = Inr st' \<Longrightarrow>
     report st' = report st \<and> to_change st' = to_change st"
  by (auto simp: insert_into_mmap_def Let_def split: sum.splits)














lemma select_change_cases:
  assumes "select_change vf rd fc (k, w) (rep, tc) = Inr (rep', tc')"
  shows "(rep' = rep \<and> tc' = tc) \<or>
         (rep' = rep \<and> tc' = AList.update k w tc) \<or>
         (\<exists>e. rep' = AList.update k (Err e) rep \<and> tc' = tc)"
  using assms
  by (auto simp: select_change_def split: option.splits sum.splits if_splits bool.splits)

lemma select_change_names:
  assumes "select_change vf rd fc (k, w) (rep, tc) = Inr (rep', tc')"
  shows "fst ` set rep' \<union> fst ` set tc' \<subseteq> fst ` set rep \<union> fst ` set tc \<union> {k}"
proof -
  from select_change_cases [OF assms] consider
    "rep' = rep \<and> tc' = tc" | "rep' = rep \<and> tc' = AList.update k w tc"
    | e where "rep' = AList.update k (Err e) rep \<and> tc' = tc"
    by blast
  then show ?thesis
  proof cases
    case 1
    then show ?thesis by blast
  next
    case 2
    then show ?thesis using dom_update [of k w tc] by blast
  next
    case 3
    then show ?thesis using dom_update [of k "Err e" rep] by blast
  qed
qed










section \<open>Properties of the metadata handler\<close>

























section \<open>What the report shows for a requested change\<close>

lemma for_each_kept:
  assumes "\<And>x s s'. body x s = Inr s' \<Longrightarrow> V s' = V s"
    and "for_each body xs s = Inr s'"
  shows "V s' = V s"
  using assms(2)
proof (induction xs arbitrary: s)
  case Nil
  then show ?case by simp
next
  case (Cons x xs)
  then obtain s1 where s1: "body x s = Inr s1" and rest: "for_each body xs s1 = Inr s'"
    by (auto split: sum.splits)
  from Cons.IH [OF rest] assms(1) [OF s1] show ?case by simp
qed

lemma standing_step:
  assumes "map_of (to_change st) k = Some v"
    and "report st' = AList.update k (Val v) (report st)"
    and "to_change st' = AList.delete k (to_change st)"
  shows "standing (report st') (to_change st') = standing (report st) (to_change st)"
proof
  fix f
  show "standing (report st') (to_change st') f = standing (report st) (to_change st) f"
    using assms
    by (cases "f = k") (simp_all add: standing_def update_conv' delete_conv' split: option.splits)
qed

lemma insert_into_mmap_standing:
  "insert_into_mmap d (st :: edit_state) = Inr st' \<Longrightarrow>
     standing (report st') (to_change st') = standing (report st) (to_change st)"
  using insert_into_mmap_frame [of d st st'] by simp

lemma modify_version_standing:
  assumes "modify_version st = Inr st'"
  shows "standing (report st') (to_change st') = standing (report st) (to_change st)"
proof (cases "st' = st")
  case True
  then show ?thesis by simp
next
  case False
  with assms obtain v b where v: "map_of (to_change st) ''version'' = Some v"
    and st': "st' = st\<lparr>mm := b, report := AList.update ''version'' (Val v) (report st),
                        to_change := AList.delete ''version'' (to_change st)\<rparr>"
    by (auto simp: modify_version_def split: option.splits sum.splits if_splits)
  from st' v show ?thesis
    by (intro standing_step [of st "''version''" v]) simp_all
qed

lemma increment_feat_standing:
  assumes "increment_feat fc fm st = Inr st'"
  shows "standing (report st') (to_change st') = standing (report st) (to_change st)"
proof -
  obtain feat marker where fm: "fm = (feat, marker)"
    by (cases fm)
  show ?thesis
  proof (cases "map_of (to_change st) feat")
    case None
    with assms fm show ?thesis by (simp add: increment_feat_def)
  next
    case (Some new_val)
    with assms fm obtain d st1 where ins: "insert_into_mmap d st = Inr st1"
      and st': "st' = st1\<lparr>report := AList.update feat (Val new_val) (report st1),
                           to_change := AList.delete feat (to_change st1)\<rparr>"
      by (auto simp: increment_feat_def split: option.splits sum.splits)
    from insert_into_mmap_frame [OF ins] st' Some show ?thesis
      by (intro standing_step [of st feat new_val]) simp_all
  qed
qed

lemma modify_size_standing:
  assumes "modify_size st = Inr st'"
  shows "standing (report st') (to_change st') = standing (report st) (to_change st)"
proof (cases "st' = st")
  case True
  then show ?thesis by simp
next
  case False
  with assms obtain v d st1 where v: "map_of (to_change st) ''size'' = Some v"
    and ins: "insert_into_mmap d st = Inr st1"
    and st': "st' = st1\<lparr>report := AList.update ''size'' (Val v) (report st1),
                         to_change := AList.delete ''size'' (to_change st1)\<rparr>"
    by (auto simp: modify_size_def split: option.splits sum.splits if_splits)
  from insert_into_mmap_frame [OF ins] st' v show ?thesis
    by (intro standing_step [of st "''size''" v]) simp_all
qed

lemma add_suffix_standing:
  assumes "add_suffix p suf acc = Inr acc'"
  shows "standing (report (snd acc')) (to_change (snd acc')) =
         standing (report (snd acc)) (to_change (snd acc))"
proof -
  obtain addendum st where acc: "acc = (addendum, st)"
    by (cases acc)
  from assms acc obtain v a where v: "map_of (to_change st) (p @ ''_'' @ suf) = Some v"
    and acc': "acc' = (a, st\<lparr>report := AList.update (p @ ''_'' @ suf) (Val v) (report st),
                              to_change := AList.delete (p @ ''_'' @ suf) (to_change st)\<rparr>)"
    by (auto simp: add_suffix_def Let_def split: option.splits sum.splits)
  let ?st2 = "st\<lparr>report := AList.update (p @ ''_'' @ suf) (Val v) (report st),
                  to_change := AList.delete (p @ ''_'' @ suf) (to_change st)\<rparr>"
  have "standing (report ?st2) (to_change ?st2) = standing (report st) (to_change st)"
    by (rule standing_step [OF v]) simp_all
  with acc acc' show ?thesis by simp
qed

lemma modify_metadata_field_standing:
  assumes "modify_metadata_field pf st = Inr st'"
  shows "standing (report st') (to_change st') = standing (report st) (to_change st)"
proof -
  obtain p t where pf: "pf = (p, t)"
    by (cases pf)
  from assms pf obtain a st1 where
    loop: "for_each (add_suffix p) (metadata_suffixes p (to_change st)) ([], st) = Inr (a, st1)"
    and fin: "(if a \<noteq> [] then insert_into_mmap (format1 t a) st1 else Inr st1) = Inr st'"
    by (auto simp: modify_metadata_field_def split: sum.splits prod.splits)
  have "standing (report (snd (a, st1))) (to_change (snd (a, st1))) =
        standing (report (snd ([] :: string, st))) (to_change (snd ([] :: string, st)))"
    by (rule for_each_kept [OF _ loop]) (rule add_suffix_standing)
  moreover from fin have "standing (report st') (to_change st') = standing (report st1) (to_change st1)"
    by (auto split: if_splits dest: insert_into_mmap_standing)
  ultimately show ?thesis by simp
qed

lemma date_ts_standing:
  assumes "date_ts rd feat g f st = Inr (s, st')"
  shows "standing (report st') (to_change st') = standing (report st) (to_change st)"
proof (cases "map_of (to_change st) feat")
  case None
  with assms have "st' = st"
    by (auto simp: date_ts_def split: sum.splits)
  then show ?thesis by simp
next
  case (Some v)
  with assms have "st' = st\<lparr>report := AList.update feat (Val v) (report st),
                              to_change := AList.delete feat (to_change st)\<rparr>"
    by (auto simp: date_ts_def split: sum.splits)
  with Some show ?thesis
    by (intro standing_step [of st feat v]) simp_all
qed

lemma date_tz_standing:
  assumes "date_tz rd feat ns g os st = Inr (s, st')"
  shows "standing (report st') (to_change st') = standing (report st) (to_change st)"
proof (cases "map_of (to_change st) feat")
  case None
  with assms have "st' = st"
    by (auto simp: date_tz_def split: sum.splits)
  then show ?thesis by simp
next
  case (Some v)
  with assms have "st' = st\<lparr>report := AList.update feat (Val v) (report st),
                              to_change := AList.delete feat (to_change st)\<rparr>"
    by (auto simp: date_tz_def split: sum.splits)
  with Some show ?thesis
    by (intro standing_step [of st feat v]) simp_all
qed

lemma place_date_standing:
  "place_date field d f st = Inr st' \<Longrightarrow>
     standing (report st') (to_change st') = standing (report st) (to_change st)"
  by (auto simp: place_date_def split: option.splits prod.splits if_splits
      dest: insert_into_mmap_standing)

lemma modify_moddate_standing:
  assumes "modify_moddate rd st = Inr st'"
  shows "standing (report st') (to_change st') = standing (report st) (to_change st)"
proof (cases "st' = st")
  case True
  then show ?thesis by simp
next
  case False
  with assms obtain ts st1 tz st2 d f where
    a: "date_ts rd ''moddate_ts'' ''moddate_ts'' ts_moddate st = Inr (ts, st1)"
    and b: "date_tz rd ''moddate_tz'' [CHR 0x27] ''moddate_tz'' [CHR 0x27] st1 = Inr (tz, st2)"
    and c: "place_date (moddate_field rd) d f st2 = Inr st'"
    by (auto simp: modify_moddate_def split: if_splits sum.splits prod.splits)
  from date_ts_standing [OF a] date_tz_standing [OF b] place_date_standing [OF c]
  show ?thesis by simp
qed

lemma modify_createdate_standing:
  assumes "modify_createdate rd st = Inr st'"
  shows "standing (report st') (to_change st') = standing (report st) (to_change st)"
proof (cases "st' = st")
  case True
  then show ?thesis by simp
next
  case False
  with assms obtain ts st1 tz st2 d f where
    a: "date_ts rd ''createdate_ts'' ''moddate_ts'' ts_createdate st = Inr (ts, st1)"
    and b: "date_tz rd ''createdate_tz'' '':'' ''createdate_tz'' [CHR 0x27] st1 = Inr (tz, st2)"
    and c: "place_date (createdate_field rd) d f st2 = Inr st'"
    by (auto simp: modify_createdate_def split: if_splits sum.splits prod.splits)
  from date_ts_standing [OF a] date_tz_standing [OF b] place_date_standing [OF c]
  show ?thesis by simp
qed


lemma select_change_other:
  assumes "select_change vf rd fc (k, w) (rep, tc) = Inr (rep', tc')" and "k \<noteq> feat"
  shows "standing rep' tc' feat = standing rep tc feat"
proof -
  from select_change_cases [OF assms(1)] consider
    "rep' = rep \<and> tc' = tc" | "rep' = rep \<and> tc' = AList.update k w tc"
    | e where "rep' = AList.update k (Err e) rep \<and> tc' = tc"
    by blast
  then show ?thesis
    using assms(2) by cases (simp_all add: standing_def update_conv' split: option.splits)
qed

lemma first_pass_other:
  "for_each (select_change vf rd fc) xs (rep, tc) = Inr (rep', tc') \<Longrightarrow> feat \<notin> fst ` set xs \<Longrightarrow>
     standing rep' tc' feat = standing rep tc feat"
proof (induction xs arbitrary: rep tc)
  case Nil
  then show ?case by simp
next
  case (Cons x xs)
  obtain k w where x: "x = (k, w)" by (cases x)
  from Cons.prems(1) x obtain rep1 tc1 where
    one: "select_change vf rd fc (k, w) (rep, tc) = Inr (rep1, tc1)"
    and rest: "for_each (select_change vf rd fc) xs (rep1, tc1) = Inr (rep', tc')"
    by (auto split: sum.splits)
  have "k \<noteq> feat" and "feat \<notin> fst ` set xs"
    using Cons.prems(2) x by auto
  with Cons.IH [OF rest] select_change_other [OF one] show ?case by simp
qed

lemma select_change_decided:
  assumes "fc feat = Some cur" and "py_ne cur v" and "type_of v \<noteq> TExc"
    and "near_equal rd cur v = Inr False" and "vf feat v = Inr r"
  shows "select_change vf rd fc (feat, v) (rep, tc) =
           Inr (if r = Valid then (rep, AList.update feat v tc)
                else (AList.update feat (Err r) rep, tc))"
  using assms by (simp add: select_change_def)

lemma first_pass_decided:
  assumes "fc feat = Some cur" and "py_ne cur v" and "type_of v \<noteq> TExc"
    and "near_equal rd cur v = Inr False" and "vf feat v = Inr r"
  shows "for_each (select_change vf rd fc) xs (rep, tc) = Inr (rep', tc') \<Longrightarrow>
         distinct (map fst xs) \<Longrightarrow> (feat, v) \<in> set xs \<Longrightarrow>
         feat \<notin> fst ` set rep \<union> fst ` set tc \<Longrightarrow>
         standing rep' tc' feat = Some (if r = Valid then Val v else Err r)"
proof (induction xs arbitrary: rep tc)
  case Nil
  then show ?case by simp
next
  case (Cons x xs)
  obtain k w where x: "x = (k, w)" by (cases x)
  from Cons.prems(1) x obtain rep1 tc1 where
    one: "select_change vf rd fc (k, w) (rep, tc) = Inr (rep1, tc1)"
    and rest: "for_each (select_change vf rd fc) xs (rep1, tc1) = Inr (rep', tc')"
    by (auto split: sum.splits)
  show ?case
  proof (cases "k = feat")
    case True
    have later: "feat \<notin> fst ` set xs"
      using Cons.prems(2) x True by simp
    then have "(feat, v) \<notin> set xs"
      by force
    with Cons.prems(3) x True have w: "w = v"
      by simp
    have fresh: "map_of tc feat = None"
      using Cons.prems(4) by (simp add: map_of_eq_None_iff)
    have "standing rep1 tc1 feat = Some (if r = Valid then Val v else Err r)"
      using one True w fresh
        select_change_decided [where fc = fc and vf = vf, OF assms, of rep tc]
      by (auto simp: standing_def update_conv')
    with first_pass_other [OF rest later] show ?thesis by simp
  next
    case False
    have "fst ` set rep1 \<union> fst ` set tc1 \<subseteq> fst ` set rep \<union> fst ` set tc \<union> {k}"
      by (rule select_change_names [OF one])
    with Cons.prems(4) False have fresh: "feat \<notin> fst ` set rep1 \<union> fst ` set tc1"
      by blast
    have "distinct (map fst xs)" and "(feat, v) \<in> set xs"
      using Cons.prems(2,3) x False by auto
    from Cons.IH [OF rest this fresh] show ?thesis .
  qed
qed

lemma modify_file_standing:
  assumes "modify_file rd features oldbytes = Inr res"
  shows "\<exists>rep tc rep' tc'.
           for_each (select_change (check_feature_change_valid rd) rd (retrieve_feature_dictionary rd))
             (sort_key fst features) ([], []) = Inr (rep, tc) \<and>
           standing rep' tc' = standing rep tc \<and>
           final_report res = finalize_report rep' tc'"
proof -
  let ?fc = "retrieve_feature_dictionary rd"
  from assms obtain rep tc st1 st2 st3 st4 st5 st6 where
    p1: "for_each (select_change (check_feature_change_valid rd) rd ?fc) (sort_key fst features) ([], [])
           = Inr (rep, tc)"
    and p2: "modify_version \<lparr>mm = oldbytes, insert_offset = startxref_position rd,
                             report = rep, to_change = tc\<rparr> = Inr st1"
    and p3: "for_each (increment_feat ?fc) incrementable_feats st1 = Inr st2"
    and p4: "for_each modify_metadata_field metadata_feats st2 = Inr st3"
    and p5: "modify_moddate rd st3 = Inr st4"
    and p6: "modify_createdate rd st4 = Inr st5"
    and p7: "modify_size st5 = Inr st6"
    and res: "res = \<lparr>newpdf = mm st6, final_report = finalize_report (report st6) (to_change st6)\<rparr>"
    unfolding modify_file_def Let_def
    by (auto split: if_splits sum.splits prod.splits)
  let ?S = "\<lambda>st. standing (report st) (to_change st)"
  have "?S st1 = standing rep tc"
    using modify_version_standing [OF p2] by simp
  moreover have "?S st2 = ?S st1"
    by (rule for_each_kept [OF _ p3]) (rule increment_feat_standing)
  moreover have "?S st3 = ?S st2"
    by (rule for_each_kept [OF _ p4]) (rule modify_metadata_field_standing)
  moreover have "?S st4 = ?S st3"
    by (rule modify_moddate_standing [OF p5])
  moreover have "?S st5 = ?S st4"
    by (rule modify_createdate_standing [OF p6])
  moreover have "?S st6 = ?S st5"
    by (rule modify_size_standing [OF p7])
  ultimately have "?S st6 = standing rep tc"
    by simp
  with p1 res show ?thesis by auto
qed

text \<open>
  Where \<open>modify_file\<close> returns, every requested change that reached the validator is
  in the report: a rejected one with success false and the validator's answer, an
  accepted one with the requested value, as a success if a handler took it and with
  success false if it was left pending.
\<close>

theorem requested_changes_reported:
  assumes "modify_file rd features oldbytes = Inr res"
    and "distinct (map fst features)" and "(feat, v) \<in> set features"
    and "retrieve_feature_dictionary rd feat = Some cur"
    and "py_ne cur v" and "type_of v \<noteq> TExc" and "near_equal rd cur v = Inr False"
    and "check_feature_change_valid rd feat v = Inr r"
  shows "(r \<noteq> Valid \<longrightarrow> map_of (final_report res) feat = Some (False, Err r)) \<and>
         (r = Valid \<longrightarrow> map_of (final_report res) feat = Some (True, Val v) \<or>
                        map_of (final_report res) feat = Some (False, Val v))"
proof -
  from modify_file_standing [OF assms(1)] obtain rep tc rep' tc' where
    p1: "for_each (select_change (check_feature_change_valid rd) rd (retrieve_feature_dictionary rd))
           (sort_key fst features) ([], []) = Inr (rep, tc)"
    and keep: "standing rep' tc' = standing rep tc"
    and fin: "final_report res = finalize_report rep' tc'"
    by blast
  have d: "distinct (map fst (sort_key fst features))"
    using assms(2) by (simp add: distinct_map)
  have m: "(feat, v) \<in> set (sort_key fst features)"
    using assms(3) by simp
  have "standing rep tc feat = Some (if r = Valid then Val v else Err r)"
    by (rule first_pass_decided [where fc = "retrieve_feature_dictionary rd",
          OF assms(4-8) p1 d m]) simp
  with keep have st: "standing rep' tc' feat = Some (if r = Valid then Val v else Err r)"
    by simp
  have exc: "\<not> is_exception (Val v)"
    using assms(6) by (cases v) simp_all
  show ?thesis
    using st exc
    by (auto simp: fin map_of_finalize_report standing_def split: option.splits if_splits)
qed

section \<open>The states the metadata handler meets\<close>

lemma metadata_catalog_names:
  "list_all (\<lambda>(name, d). edit d = ''y'' \<longrightarrow>
      list_all (\<lambda>(p, tpl).
          startswith name p \<and> \<not> (endswith name ''mismatch'' \<or> endswith name ''len'') \<longrightarrow>
            ftype d = TInt \<and> list_ex (\<lambda>(suf, ch). name = p @ ''_'' @ suf) class_chars)
        metadata_feats)
     pdfrate_feature_descriptions"
  by code_simp

lemma set_update_subset: "set (AList.update k v al) \<subseteq> insert (k, v) (set al)"
  by (induction al) auto

lemma set_delete_subset: "set (AList.delete k al) \<subseteq> set al"
  by (auto simp: AList.delete_eq)

lemma well_formed_delete:
  assumes "well_formed rd st" and "to_change st' = AList.delete k (to_change st)"
    and "insert_offset st' \<le> length (mm st')"
  shows "well_formed rd st'"
  using assms set_delete_subset [of k "to_change st"]
  by (auto simp: well_formed_def distinct_delete)

lemma well_formed_insert:
  assumes "well_formed rd st" and "insert_into_mmap d st = Inr st1"
  shows "insert_offset st1 \<le> length (mm st1) \<and> to_change st1 = to_change st"
proof -
  have le: "insert_offset st \<le> length (mm st)"
    using assms(1) by (simp add: well_formed_def)
  from insert_into_mmap_splice [OF le, of d] assms(2) le show ?thesis
    by auto
qed

lemma modify_version_well_formed:
  assumes "modify_version st = Inr st'" and "well_formed rd st"
  shows "well_formed rd st'"
proof (cases "st' = st")
  case True
  with assms(2) show ?thesis by simp
next
  case False
  with assms(1) obtain v pos c where
    st': "st' = st\<lparr>mm := (mm st)[pos := c], report := AList.update ''version'' (Val v) (report st),
                    to_change := AList.delete ''version'' (to_change st)\<rparr>"
    by (auto simp: modify_version_def split: option.splits sum.splits if_splits)
  show ?thesis
    by (rule well_formed_delete [OF assms(2), of _ "''version''"])
      (use st' assms(2) in \<open>simp_all add: well_formed_def\<close>)
qed

lemma increment_feat_well_formed:
  assumes "increment_feat fc fm st = Inr st'" and "well_formed rd st"
  shows "well_formed rd st'"
proof -
  obtain feat marker where fm: "fm = (feat, marker)"
    by (cases fm)
  show ?thesis
  proof (cases "map_of (to_change st) feat")
    case None
    with assms fm show ?thesis by (simp add: increment_feat_def)
  next
    case (Some new_val)
    with assms(1) fm obtain d st1 where ins: "insert_into_mmap d st = Inr st1"
      and st': "st' = st1\<lparr>report := AList.update feat (Val new_val) (report st1),
                           to_change := AList.delete feat (to_change st1)\<rparr>"
      by (auto simp: increment_feat_def split: option.splits sum.splits)
    from well_formed_insert [OF assms(2) ins] st' show ?thesis
      by (intro well_formed_delete [OF assms(2), of _ feat]) simp_all
  qed
qed

lemma for_each_well_formed:
  assumes "\<And>x s s'. body x s = Inr s' \<Longrightarrow> P s \<Longrightarrow> P s'"
    and "for_each body xs s = Inr s'" and "P s"
  shows "P s'"
  using assms(2,3)
proof (induction xs arbitrary: s)
  case Nil
  then show ?case by simp
next
  case (Cons x xs)
  then obtain s1 where s1: "body x s = Inr s1" and rest: "for_each body xs s1 = Inr s'"
    by (auto split: sum.splits)
  from Cons.IH [OF rest assms(1) [OF s1 Cons.prems(2)]] show ?case .
qed

lemma add_suffix_well_formed:
  assumes "add_suffix p suf acc = Inr acc'" and "well_formed rd (snd acc)"
  shows "well_formed rd (snd acc')"
proof -
  obtain addendum st where acc: "acc = (addendum, st)"
    by (cases acc)
  from assms(1) acc obtain v a where
    acc': "acc' = (a, st\<lparr>report := AList.update (p @ ''_'' @ suf) (Val v) (report st),
                         to_change := AList.delete (p @ ''_'' @ suf) (to_change st)\<rparr>)"
    by (auto simp: add_suffix_def Let_def split: option.splits sum.splits)
  have wf: "well_formed rd st"
    using assms(2) acc by simp
  have "well_formed rd (st\<lparr>report := AList.update (p @ ''_'' @ suf) (Val v) (report st),
                           to_change := AList.delete (p @ ''_'' @ suf) (to_change st)\<rparr>)"
    by (rule well_formed_delete [OF wf, of _ "p @ ''_'' @ suf"])
      (use wf in \<open>simp_all add: well_formed_def\<close>)
  with acc' show ?thesis by simp
qed

lemma modify_metadata_field_well_formed:
  assumes "modify_metadata_field pf st = Inr st'" and "well_formed rd st"
  shows "well_formed rd st'"
proof -
  obtain p t where pf: "pf = (p, t)"
    by (cases pf)
  from assms(1) pf obtain a st1 where
    loop: "for_each (add_suffix p) (metadata_suffixes p (to_change st)) ([], st) = Inr (a, st1)"
    and fin: "(if a \<noteq> [] then insert_into_mmap (format1 t a) st1 else Inr st1) = Inr st'"
    by (auto simp: modify_metadata_field_def split: sum.splits prod.splits)
  have "well_formed rd (snd (a, st1))"
    by (rule for_each_well_formed [where P = "\<lambda>acc. well_formed rd (snd acc)", OF _ loop])
      (use assms(2) in \<open>auto intro: add_suffix_well_formed\<close>)
  then have wf1: "well_formed rd st1"
    by simp
  show ?thesis
  proof (cases "a = []")
    case True
    with fin wf1 show ?thesis by simp
  next
    case False
    with fin have ins: "insert_into_mmap (format1 t a) st1 = Inr st'"
      by simp
    from well_formed_insert [OF wf1 ins] wf1 show ?thesis
      by (simp add: well_formed_def)
  qed
qed


lemma select_change_accepts:
  assumes "select_change vf rd fc (k, w) (rep, tc) = Inr (rep', tc')"
  shows "tc' = tc \<or> (tc' = AList.update k w tc \<and> vf k w = Inr Valid)"
  using assms
  by (auto simp: select_change_def split: option.splits sum.splits if_splits bool.splits)

lemma first_pass_accepted:
  "for_each (select_change vf rd fc) xs (rep, tc) = Inr (rep', tc') \<Longrightarrow>
   distinct (map fst tc) \<and> (\<forall>(k, w) \<in> set tc. vf k w = Inr Valid) \<Longrightarrow>
   distinct (map fst tc') \<and> (\<forall>(k, w) \<in> set tc'. vf k w = Inr Valid)"
proof (induction xs arbitrary: rep tc)
  case Nil
  then show ?case by simp
next
  case (Cons x xs)
  obtain k w where x: "x = (k, w)" by (cases x)
  from Cons.prems(1) x obtain rep1 tc1 where
    one: "select_change vf rd fc (k, w) (rep, tc) = Inr (rep1, tc1)"
    and rest: "for_each (select_change vf rd fc) xs (rep1, tc1) = Inr (rep', tc')"
    by (auto split: sum.splits)
  have "distinct (map fst tc1) \<and> (\<forall>(k, w) \<in> set tc1. vf k w = Inr Valid)"
    using select_change_accepts [OF one] Cons.prems(2) set_update_subset [of k w tc]
    by (auto simp: distinct_update)
  from Cons.IH [OF rest this] show ?case .
qed

lemma accepted_metadata_shape:
  assumes "well_formed rd st" and "(p, tpl) \<in> set metadata_feats"
  shows "\<forall>f \<in> set (field_keys p (to_change st)).
           \<exists>suf ch n. (suf, ch) \<in> set class_chars \<and> f = p @ ''_'' @ suf \<and>
                      map_of (to_change st) f = Some (IntV n)"
proof
  fix f
  assume "f \<in> set (field_keys p (to_change st))"
  then obtain w where mem: "(f, w) \<in> set (to_change st)"
    and sel: "startswith f p \<and> \<not> (endswith f ''mismatch'' \<or> endswith f ''len'')"
    by (auto simp: field_keys_def)
  have look: "map_of (to_change st) f = Some w"
    using assms(1) mem by (simp add: well_formed_def)
  have "check_feature_change_valid rd f w = Inr Valid"
    using assms(1) mem by (auto simp: well_formed_def)
  then obtain d where d: "map_of pdfrate_feature_descriptions f = Some d"
    and ed: "edit d = ''y''" and ty: "ftype d = type_of w"
    by (auto simp: check_feature_change_valid_def check_desc_def split: option.splits if_splits)
  have "(f, d) \<in> set pdfrate_feature_descriptions"
    using d by (rule map_of_SomeD)
  with metadata_catalog_names ed assms(2) sel
  have "ftype d = TInt \<and> list_ex (\<lambda>(suf, ch). f = p @ ''_'' @ suf) class_chars"
    by (auto simp: list_all_iff)
  then obtain suf ch where "(suf, ch) \<in> set class_chars" and "f = p @ ''_'' @ suf"
    and "type_of w = TInt"
    using ty by (auto simp: list_ex_iff)
  moreover then obtain n where "w = IntV n"
    by (cases w) auto
  ultimately show "\<exists>suf ch n. (suf, ch) \<in> set class_chars \<and> f = p @ ''_'' @ suf \<and>
                     map_of (to_change st) f = Some (IntV n)"
    using look by blast
qed

text \<open>
  In \<open>modify_file\<close>, on a document whose \<open>startxref\<close> position lies within the file,
  every metadata field is handled in a state of the kind the composition theorem above
  is about: only accepted values are pending, and the catalog's editable names under a
  field prefix are the five class sub-features, all of integer type.
\<close>

lemma metadata_handler_preconditions:
  assumes "for_each (select_change (check_feature_change_valid rd) rd fc) xs ([], []) = Inr (rep, tc)"
    and "startxref_position rd \<le> length oldbytes"
    and "modify_version \<lparr>mm = oldbytes, insert_offset = startxref_position rd,
                         report = rep, to_change = tc\<rparr> = Inr st1"
    and "for_each (increment_feat fc) incrementable_feats st1 = Inr st2"
    and "for_each modify_metadata_field flds st2 = Inr st"
    and "(p, tpl) \<in> set metadata_feats"
  shows "distinct (map fst (to_change st)) \<and>
         (\<forall>f \<in> set (field_keys p (to_change st)).
            \<exists>suf ch n. (suf, ch) \<in> set class_chars \<and> f = p @ ''_'' @ suf \<and>
                       map_of (to_change st) f = Some (IntV n)) \<and>
         insert_offset st \<le> length (mm st)"
proof -
  let ?st0 = "\<lparr>mm = oldbytes, insert_offset = startxref_position rd, report = rep, to_change = tc\<rparr>"
  have "distinct (map fst tc) \<and> (\<forall>(k, w) \<in> set tc. check_feature_change_valid rd k w = Inr Valid)"
    by (rule first_pass_accepted [OF assms(1)]) simp
  then have "well_formed rd ?st0"
    using assms(2) by (simp add: well_formed_def)
  then have wf1: "well_formed rd st1"
    by (rule modify_version_well_formed [OF assms(3)])
  have wf2: "well_formed rd st2"
  proof (rule for_each_well_formed [where P = "well_formed rd", OF _ assms(4) wf1])
    fix x s s'
    assume "increment_feat fc x s = Inr s'" and "well_formed rd s"
    then show "well_formed rd s'" by (rule increment_feat_well_formed)
  qed
  have wf: "well_formed rd st"
  proof (rule for_each_well_formed [where P = "well_formed rd", OF _ assms(5) wf2])
    fix x s s'
    assume "modify_metadata_field x s = Inr s'" and "well_formed rd s"
    then show "well_formed rd s'" by (rule modify_metadata_field_well_formed)
  qed
  from accepted_metadata_shape [OF wf assms(6)] wf show ?thesis
    by (simp add: well_formed_def)
qed

section \<open>The version step\<close>

lemma version_search_in_range:
  "regex_pdf_version_search b = Some pos \<Longrightarrow> pos < length b \<and> is_digit (b ! pos)"
proof (induction b arbitrary: pos)
  case Nil
  then show ?case by simp
next
  case (Cons c cs)
  show ?case
  proof (cases "take 7 (c # cs) = ''%PDF-1.'' \<and> (case drop 7 (c # cs) of [] \<Rightarrow> False | d # _ \<Rightarrow> is_digit d)")
    case True
    then have pos: "pos = 7"
      using Cons.prems by simp
    from True obtain d ds where d: "drop 7 (c # cs) = d # ds" and dig: "is_digit d"
      by (auto split: list.splits)
    have len: "7 < length (c # cs)"
      using d by (metis drop_all leI list.distinct(1))
    have "(c # cs) ! 7 = d"
      using d len by (metis Cons_nth_drop_Suc list.inject)
    with pos dig len show ?thesis by simp
  next
    case False
    with Cons.prems obtain q where q: "regex_pdf_version_search cs = Some q" and pos: "pos = Suc q"
      by auto
    from Cons.IH [OF q] pos show ?thesis by simp
  qed
qed

lemma raw_byte_is_no_digit:
  assumes "0 \<le> n" and "n \<le> 9"
  shows "\<not> is_digit (char_of (n :: int))"
proof -
  have "n \<in> {0, 1, 2, 3, 4, 5, 6, 7, 8, 9}"
    using assms by (simp; presburger)
  then show ?thesis
    by (auto simp: is_digit_def char_of_def)
qed

text \<open>
  The version step on any document that has the anchor: one byte, which was a digit, is
  overwritten in place, every other byte and the length stay, the version is reported
  and removed from the pending changes; for a requested version up to 9 the byte written
  is not a digit.
\<close>

lemma modify_version_writes_byte:
  assumes "map_of (to_change st) ''version'' = Some (IntV n)" and "0 \<le> n" and "n \<le> 255"
    and "regex_pdf_version_search (mm st) = Some pos"
  shows "modify_version st =
           Inr (st\<lparr>mm := (mm st)[pos := char_of n],
                   report := AList.update ''version'' (Val (IntV n)) (report st),
                   to_change := AList.delete ''version'' (to_change st)\<rparr>) \<and>
         length ((mm st)[pos := char_of n]) = length (mm st) \<and>
         pos < length (mm st) \<and> is_digit (mm st ! pos) \<and>
         (\<forall>i. i \<noteq> pos \<longrightarrow> (mm st)[pos := char_of n] ! i = mm st ! i) \<and>
         (n \<le> 9 \<longrightarrow> \<not> is_digit ((mm st)[pos := char_of n] ! pos))"
  using assms version_search_in_range [OF assms(4)] raw_byte_is_no_digit [of n]
  by (simp add: modify_version_def)

end
